theory Spec2Isabelle
  imports Main "HOL-Library.Multiset" "HOL-Library.Product_Lexorder"
begin

section \<open>Configuration and data model (src/index.tsx, lines 6-37)\<close>

definition IMAGE_PATHS :: "string list" where
  "IMAGE_PATHS =
    [''/images/image-1.png'', ''/images/image-2.png'', ''/images/image-3.png'',
     ''/images/image-4.png'', ''/images/image-5.png'', ''/images/image-6.png'',
     ''/images/image-7.png'', ''/images/image-8.png'', ''/images/image-9.png'',
     ''/images/image-10.png'']"

definition GRID_ROWS :: nat where
  "GRID_ROWS = 5"

definition GRID_COLS :: nat where
  "GRID_COLS = 4"

definition GAME_DURATION :: int where
  "GAME_DURATION = 180"

text \<open>
  \<open>interface CardState\<close>. The field \<open>id\<close> of the source is \<open>id_card\<close> here, since
  \<open>id\<close> is the identity function of HOL.
\<close>

record CardState =
  id_card :: nat
  imageId :: nat
  imageUrl :: string
  isFlipped :: bool
  isMatched :: bool

text \<open>
  \<open>interface HighScore\<close>. The field \<open>moves\<close> of the source is \<open>moves_hs\<close> here, to keep it
  apart from the state variable \<open>moves\<close> of the component.
\<close>

record HighScore =
  name :: string
  time :: int
  moves_hs :: int

datatype GameState = Start | Playing | AwaitingName | Won | Lost

text \<open>The only exception the modelled code can raise: reading a property of \<open>undefined\<close>.\<close>

datatype error = TypeError

section \<open>Deck generation (\<open>shuffledCards\<close>, lines 73-85)\<close>

text \<open>JavaScript's \<open>xs.map((x, index) => f x index)\<close>.\<close>

definition map_index :: "('a \<Rightarrow> nat \<Rightarrow> 'b) \<Rightarrow> 'a list \<Rightarrow> 'b list" where
  "map_index f xs = map (\<lambda>(index, x). f x index) (zip [0..<length xs] xs)"

text \<open>
  \<open>.sort(() => Math.random() - 0.5)\<close>: the comparator ignores its arguments, so the order
  that comes out is decided by the random source and the engine's sorting algorithm, not by
  the cards. The model takes that order as a parameter \<open>p\<close>: position \<open>k\<close> of the result
  holds the element that stood at position \<open>p ! k\<close>. For a sort, \<open>p\<close> is a permutation of
  the positions; the theorems about the deck assume exactly that.
\<close>

definition sort_random :: "nat list \<Rightarrow> 'a list \<Rightarrow> 'a list" where
  "sort_random p xs = map (\<lambda>k. xs ! k) p"

text \<open>
  The body of the \<open>useMemo\<close> callback, with the image pool and the grid dimensions as
  parameters. \<open>requiredImagesCount\<close> is \<open>(rows * cols) / 2\<close>; \<open>slice(0, n)\<close> rounds a
  fractional \<open>n\<close> down and stops at the end of the array, which is \<open>take\<close>.
\<close>

definition cardPairs :: "string list \<Rightarrow> nat \<Rightarrow> nat \<Rightarrow> CardState list" where
  "cardPairs pool rows cols =
    (let requiredImagesCount = (rows * cols) div 2
     in map_index
          (\<lambda>imagePath index.
             \<lparr>id_card = 0, imageId = index, imageUrl = imagePath,
              isFlipped = False, isMatched = False\<rparr>)
          (take requiredImagesCount pool))"

definition shuffledCards_of :: "string list \<Rightarrow> nat \<Rightarrow> nat \<Rightarrow> nat list \<Rightarrow> CardState list" where
  "shuffledCards_of pool rows cols p =
    map_index (\<lambda>card index. card\<lparr>id_card := index\<rparr>)
      (sort_random p (cardPairs pool rows cols @ cardPairs pool rows cols))"

text \<open>The deck of the program: the constants of the source for pool and grid.\<close>

definition shuffledCards :: "nat list \<Rightarrow> CardState list" where
  "shuffledCards p = shuffledCards_of IMAGE_PATHS GRID_ROWS GRID_COLS p"

section \<open>The state of the component (\<open>App\<close>, lines 45-60)\<close>

text \<open>
  What \<open>JSON.parse\<close> can return for the stored text, and so what the state variable
  \<open>highScores\<close> can hold, as nothing checks the parsed value before \<open>setHighScores\<close>
  installs it: a ledger (an array of records with the three fields), or a value that is no
  array at all: \<open>null\<close>, a boolean or a number (a fractional number behaves like an
  integer one wherever the code touches it). Text that parses to a string, to an object or
  to an array with other elements is not represented.
\<close>

datatype scores = Ledger "HighScore list" | JsonNull | JsonBoolean bool | JsonNumber int

text \<open>
  What the browser holds under the key \<open>memoryGameHighScores\<close>, as far as the code can tell
  the cases apart: no entry (\<open>getItem\<close> returns \<open>null\<close>), the empty string (falsy, so skipped
  like \<open>null\<close>), a string that \<open>JSON.parse\<close> rejects, or JSON text, represented by the value
  it parses to. \<open>JSON.stringify\<close> followed by \<open>JSON.parse\<close> gives back a list of records
  with the same fields, so the text written for a ledger is represented by that ledger.
\<close>

datatype stored = NoItem | EmptyItem | MalformedItem | JsonItem scores

text \<open>
  A callback scheduled by \<open>setTimeout\<close> in the pair-check effect: its delay in milliseconds
  and the two card ids its closure captured.
\<close>

record Timeout =
  delay :: nat
  firstId :: nat
  secondId :: nat

text \<open>
  The \<open>useState\<close> variables of \<open>App\<close> that the game logic reads or writes
  (\<open>isFullscreen\<close>, \<open>isMuted\<close> and the audio refs only feed the presentation and are left
  out), the value memoised by \<open>useMemo\<close>, and the part of the environment the code acts
  on: the callbacks scheduled by \<open>setTimeout\<close> and not yet run (oldest first), the
  \<open>localStorage\<close> entry and what \<open>console.error\<close> has printed.
\<close>

record App =
  gameState :: GameState
  cards :: "CardState list"
  flippedCards :: "nat list"
  mismatchedCards :: "nat list"
  moves :: int
  isChecking :: bool
  timeLeft :: int
  playerName :: string
  highScores :: scores
  shuffledCards_memo :: "CardState list"
  timeouts :: "Timeout list"
  localStorage :: stored
  console :: "string list"

text \<open>
  The first render: the initial values of the \<open>useState\<close> calls, and the \<open>useMemo\<close> callback
  run once (its dependency list is empty), with \<open>p\<close> the order its random sort produced.
\<close>

definition initialApp :: "nat list \<Rightarrow> stored \<Rightarrow> App" where
  "initialApp p st =
    \<lparr>gameState = Start, cards = [], flippedCards = [], mismatchedCards = [], moves = 0,
     isChecking = False, timeLeft = GAME_DURATION, playerName = [], highScores = Ledger [],
     shuffledCards_memo = shuffledCards p, timeouts = [], localStorage = st, console = []\<rparr>"

text \<open>
  The effect of lines 62-71, run once after the first render. \<open>getItemThrows\<close> says whether
  \<open>localStorage.getItem\<close> throws (storage disabled); \<open>JSON.parse\<close> throws on malformed text.
  Both exceptions are caught and logged.
\<close>

definition loadHighScores :: "bool \<Rightarrow> App \<Rightarrow> App" where
  "loadHighScores getItemThrows s =
    (if getItemThrows then s\<lparr>console := console s @ [''Failed to load high scores:'']\<rparr>
     else case localStorage s of
       NoItem \<Rightarrow> s
     | EmptyItem \<Rightarrow> s
     | MalformedItem \<Rightarrow> s\<lparr>console := console s @ [''Failed to load high scores:'']\<rparr>
     | JsonItem v \<Rightarrow> s\<lparr>highScores := v\<rparr>)"

text \<open>
  Mounting: the first render and the load effect. The other three effects also run after
  the first render and do nothing there (the phase is \<open>'start'\<close>, \<open>flippedCards\<close> and \<open>cards\<close>
  are empty).
\<close>

definition mount :: "nat list \<Rightarrow> stored \<Rightarrow> bool \<Rightarrow> App" where
  "mount p st getItemThrows = loadHighScores getItemThrows (initialApp p st)"

text \<open>
  \<open>HighScoresTable\<close>, lines 235-252, as far as it can throw: the number of list items it
  renders. \<open>scores.length\<close> throws on \<open>null\<close>; on a boolean or a number it is \<open>undefined\<close>,
  and \<open>undefined > 0\<close> is false, so the paragraph without items is shown. The start screen
  and the modal of phase \<open>'won'\<close> render the table.
\<close>

definition renderHighScoresTable :: "scores \<Rightarrow> error + nat" where
  "renderHighScoresTable v =
    (case v of
       Ledger l \<Rightarrow> Inr (length l)
     | JsonNull \<Rightarrow> Inl TypeError
     | JsonBoolean b \<Rightarrow> Inr 0
     | JsonNumber n \<Rightarrow> Inr 0)"

text \<open>
  The component once the load effect's update has been rendered: the start screen shows
  the table of the loaded value, and an exception in a render takes the component down.
  This is the only render that can throw: afterwards \<open>highScores\<close> changes only to a
  ledger. \<open>step\<close> below therefore describes handlers and effects and leaves rendering out.
\<close>

definition mounted :: "nat list \<Rightarrow> stored \<Rightarrow> bool \<Rightarrow> error + App" where
  "mounted p st getItemThrows =
    (let s = mount p st getItemThrows
     in case renderHighScoresTable (highScores s) of Inl e \<Rightarrow> Inl e | Inr n \<Rightarrow> Inr s)"

section \<open>Event handlers\<close>

text \<open>\<open>handleStartGame\<close>, lines 178-185.\<close>

definition handleStartGame :: "App \<Rightarrow> App" where
  "handleStartGame s =
    s\<lparr>cards := shuffledCards_memo s, gameState := Playing, moves := 0, flippedCards := [],
      timeLeft := GAME_DURATION, playerName := []\<rparr>"

text \<open>
  \<open>handleCardClick\<close>, lines 187-198. The guard is evaluated left to right and stops at the
  first true disjunct; \<open>cards[index]\<close> is \<open>undefined\<close> when \<open>index\<close> is not a position of
  \<open>cards\<close>, and reading \<open>.isFlipped\<close> of it throws.
\<close>

definition handleCardClick :: "App \<Rightarrow> nat \<Rightarrow> error + App" where
  "handleCardClick s index =
    (if isChecking s \<or> length (flippedCards s) = 2 then Inr s
     else if length (cards s) \<le> index then Inl TypeError
     else if isFlipped (cards s ! index) \<or> isMatched (cards s ! index) then Inr s
     else Inr (s\<lparr>cards := map_index (\<lambda>card i. if i = index then card\<lparr>isFlipped := True\<rparr> else card)
                             (cards s),
                 flippedCards := flippedCards s @ [index]\<rparr>))"

text \<open>\<open>handleResetGame\<close>, lines 200-207.\<close>

definition handleResetGame :: "App \<Rightarrow> App" where
  "handleResetGame s =
    s\<lparr>gameState := Start, cards := [], flippedCards := [], moves := 0, isChecking := False,
      timeLeft := GAME_DURATION\<rparr>"

text \<open>
  \<open>String.prototype.trim\<close> on the characters a HOL \<open>char\<close> can hold (one byte): tab, line
  feed, vertical tab, form feed, carriage return, space and no-break space.
\<close>

definition isWhiteSpace :: "char \<Rightarrow> bool" where
  "isWhiteSpace c = ((of_char c :: nat) \<in> {9, 10, 11, 12, 13, 32, 160})"

definition trim :: "string \<Rightarrow> string" where
  "trim str = rev (dropWhile isWhiteSpace (rev (dropWhile isWhiteSpace str)))"

text \<open>
  The comparator of lines 217-222 and \<open>Array.prototype.sort\<close> with it. The sort of
  ECMAScript is stable, and with a consistent comparator it returns the elements in
  ascending order of the comparator, elements that compare equal in their original order;
  \<open>sort_by\<close> computes that list by stable insertion.
\<close>

definition compareScores :: "HighScore \<Rightarrow> HighScore \<Rightarrow> int" where
  "compareScores a b =
    (if time a \<noteq> time b then time a - time b else moves_hs a - moves_hs b)"

fun insert_by :: "('a \<Rightarrow> 'a \<Rightarrow> int) \<Rightarrow> 'a \<Rightarrow> 'a list \<Rightarrow> 'a list" where
  "insert_by cmp x [] = [x]"
| "insert_by cmp x (y # ys) = (if cmp x y \<le> 0 then x # y # ys else y # insert_by cmp x ys)"

definition sort_by :: "('a \<Rightarrow> 'a \<Rightarrow> int) \<Rightarrow> 'a list \<Rightarrow> 'a list" where
  "sort_by cmp xs = foldr (insert_by cmp) xs []"

text \<open>\<open>updatedScores\<close>, lines 216-223: append, sort, keep the first five.\<close>

definition updatedScores :: "HighScore list \<Rightarrow> HighScore \<Rightarrow> HighScore list" where
  "updatedScores hs newScore = take 5 (sort_by compareScores (hs @ [newScore]))"

text \<open>
  \<open>handleNameSubmit\<close>, lines 209-233. The spread \<open>[...highScores, newScore]\<close> throws a
  \<open>TypeError\<close> when \<open>highScores\<close> is \<open>null\<close>, a boolean or a number: none is iterable.
  \<open>setItemThrows\<close> says whether \<open>localStorage.setItem\<close> throws (quota exceeded, storage
  disabled): then \<open>setHighScores\<close>, the next statement of the \<open>try\<close> block, is skipped and
  the \<open>catch\<close> block logs.
\<close>

definition handleNameSubmit :: "bool \<Rightarrow> App \<Rightarrow> error + App" where
  "handleNameSubmit setItemThrows s =
    (if trim (playerName s) = [] then Inr s
     else
       let timeTaken = GAME_DURATION - timeLeft s;
           newScore = \<lparr>name = trim (playerName s), time = timeTaken, moves_hs = moves s\<rparr>
       in case highScores s of
            Ledger hs \<Rightarrow>
              let updated = updatedScores hs newScore;
                  s' = (if setItemThrows
                        then s\<lparr>console := console s @ [''Failed to save high scores:'']\<rparr>
                        else s\<lparr>localStorage := JsonItem (Ledger updated),
                               highScores := Ledger updated\<rparr>)
              in Inr (s'\<lparr>gameState := Won\<rparr>)
          | JsonNull \<Rightarrow> Inl TypeError
          | JsonBoolean b \<Rightarrow> Inl TypeError
          | JsonNumber n \<Rightarrow> Inl TypeError)"

text \<open>
  The callback of \<open>setInterval\<close>, lines 92-94. The timer effect creates the interval only
  in a render with \<open>gameState = 'playing'\<close> and \<open>timeLeft > 0\<close> and its cleanup clears it at
  the next change of either, so a tick arrives only in such a state.
\<close>

definition tick :: "App \<Rightarrow> App" where
  "tick s = (if gameState s = Playing \<and> 0 < timeLeft s then s\<lparr>timeLeft := timeLeft s - 1\<rparr> else s)"

text \<open>
  The callback of \<open>setTimeout\<close>, lines 122-133, for the captured ids of \<open>t\<close>. Nothing in
  the source cancels it and it reads no state before it writes.
\<close>

definition timeoutCallback :: "Timeout \<Rightarrow> App \<Rightarrow> App" where
  "timeoutCallback t s =
    s\<lparr>cards := map (\<lambda>card. if id_card card = firstId t \<or> id_card card = secondId t
                             then card\<lparr>isFlipped := False\<rparr> else card) (cards s),
      flippedCards := [], mismatchedCards := [], isChecking := False\<rparr>"

section \<open>Effects and the render cycle\<close>

text \<open>
  An effect runs after a render when one of its dependencies is not the value of the
  previous render. It reads the state \<open>r\<close> of that render through its closure and queues
  updates; the model applies them to \<open>s\<close>, the state with the updates queued so far.

  The timer effect, lines 87-96.
\<close>

definition timerEffect :: "App \<Rightarrow> App \<Rightarrow> App" where
  "timerEffect r s =
    (if gameState r \<noteq> Playing \<or> timeLeft r \<le> 0
     then (if timeLeft r \<le> 0 \<and> gameState r = Playing then s\<lparr>gameState := Lost\<rparr> else s)
     else s)"

text \<open>
  The pair-check effect, lines 98-135. \<open>firstCard.imageId\<close> throws when an index in
  \<open>flippedCards\<close> is not a position of \<open>cards\<close>. In the match branch \<open>setIsChecking(true)\<close>
  is overwritten by \<open>setIsChecking(false)\<close> in the same batch.
\<close>

definition pairCheckEffect :: "App \<Rightarrow> App \<Rightarrow> error + App" where
  "pairCheckEffect r s =
    (if length (flippedCards r) \<noteq> 2 then Inr s
     else
       let firstCardIndex = flippedCards r ! 0; secondCardIndex = flippedCards r ! 1
       in if length (cards r) \<le> firstCardIndex \<or> length (cards r) \<le> secondCardIndex
          then Inl TypeError
          else
            let firstCard = cards r ! firstCardIndex; secondCard = cards r ! secondCardIndex
            in if imageId firstCard = imageId secondCard
               then Inr (s\<lparr>moves := moves s + 1,
                           cards := map (\<lambda>card. if id_card card = id_card firstCard
                                                     \<or> id_card card = id_card secondCard
                                                  then card\<lparr>isMatched := True\<rparr> else card) (cards s),
                           flippedCards := [], isChecking := False\<rparr>)
               else Inr (s\<lparr>isChecking := True, moves := moves s + 1,
                           mismatchedCards := [id_card firstCard, id_card secondCard],
                           timeouts := timeouts s
                             @ [\<lparr>delay = 1000, firstId = id_card firstCard,
                                 secondId = id_card secondCard\<rparr>]\<rparr>))"

text \<open>The win effect, lines 137-147.\<close>

definition winEffect :: "App \<Rightarrow> App \<Rightarrow> App" where
  "winEffect r s =
    (if 0 < length (cards r) \<and> list_all isMatched (cards r) then s\<lparr>gameState := AwaitingName\<rparr>
     else s)"

text \<open>
  Which dependencies of the three effects changed between two renders. \<open>gameState\<close> and
  \<open>timeLeft\<close> are primitives, compared by value. \<open>flippedCards\<close> and \<open>cards\<close> are arrays,
  compared by identity: they count as changed when a setter installed a new array, which
  the caller states.
\<close>

record deps =
  gameState_changed :: bool
  timeLeft_changed :: bool
  flippedCards_changed :: bool
  cards_changed :: bool

definition changes :: "App \<Rightarrow> App \<Rightarrow> bool \<Rightarrow> bool \<Rightarrow> deps" where
  "changes r s fc cc =
    \<lparr>gameState_changed = (gameState s \<noteq> gameState r), timeLeft_changed = (timeLeft s \<noteq> timeLeft r),
     flippedCards_changed = fc, cards_changed = cc\<rparr>"

text \<open>The pair-check effect takes its match branch in render \<open>r\<close>.\<close>

definition pairMatches :: "App \<Rightarrow> bool" where
  "pairMatches r =
    (length (flippedCards r) = 2
     \<and> flippedCards r ! 0 < length (cards r) \<and> flippedCards r ! 1 < length (cards r)
     \<and> imageId (cards r ! (flippedCards r ! 0)) = imageId (cards r ! (flippedCards r ! 1)))"

text \<open>
  One commit: the effects whose dependencies changed run in the order of their declaration
  (timer: \<open>[gameState, timeLeft]\<close>; pair-check: \<open>[flippedCards, cards]\<close>; win: \<open>[cards]\<close>),
  all on the state \<open>r\<close> of the render.
\<close>

definition runEffects :: "App \<Rightarrow> deps \<Rightarrow> error + App" where
  "runEffects r d =
    (let s1 = (if gameState_changed d \<or> timeLeft_changed d then timerEffect r r else r)
     in case (if flippedCards_changed d \<or> cards_changed d then pairCheckEffect r s1 else Inr s1) of
          Inl e \<Rightarrow> Inl e
        | Inr s2 \<Rightarrow> Inr (if cards_changed d then winEffect r s2 else s2))"

text \<open>Some effect has a changed dependency, so it runs after this render.\<close>

definition effectsPending :: "deps \<Rightarrow> bool" where
  "effectsPending d =
    (gameState_changed d \<or> timeLeft_changed d \<or> flippedCards_changed d \<or> cards_changed d)"

text \<open>
  Of the effects only the match branch of the pair-check installs new arrays, and it
  installs both.
\<close>

definition nextDeps :: "App \<Rightarrow> deps \<Rightarrow> App \<Rightarrow> deps" where
  "nextDeps r d s =
    (let arrays = ((flippedCards_changed d \<or> cards_changed d) \<and> pairMatches r)
     in changes r s arrays arrays)"

text \<open>
  The render cycle ends: a pair-check on two cards leaves either no changed array or an
  empty \<open>flippedCards\<close>, a pair-check on fewer leaves no changed array, and an effect
  changes \<open>gameState\<close> only away from \<open>Playing\<close>, after which the timer effect changes
  nothing. The measure counts what can still happen.
\<close>

definition settle_measure :: "App \<times> deps \<Rightarrow> nat" where
  "settle_measure = (\<lambda>(r, d).
     (if flippedCards_changed d \<or> cards_changed d
      then (if length (flippedCards r) = 2 then 6 else 3) else 0)
     + (if gameState_changed d \<or> timeLeft_changed d
        then (if gameState r = Playing then 2 else 1) else 0))"

text \<open>
  After an event React renders and runs the effects whose dependencies changed; the
  updates they queue cause another render, until a render changes no dependency.
\<close>

function settle :: "App \<Rightarrow> deps \<Rightarrow> error + App" where
  "settle r d =
    (if \<not> effectsPending d then Inr r
     else case runEffects r d of
            Inl e \<Rightarrow> Inl e
          | Inr s \<Rightarrow> settle s (nextDeps r d s))"
  by pat_completeness auto
termination
proof (relation "measure settle_measure")
  show "wf (measure settle_measure)" by simp
next
  fix r :: App and d :: deps and s :: App
  assume p: "\<not> \<not> effectsPending d" and e: "runEffects r d = Inr s"
  show "((s, nextDeps r d s), (r, d)) \<in> measure settle_measure"
    using p e
    by (auto simp: settle_measure_def nextDeps_def changes_def effectsPending_def runEffects_def
        timerEffect_def pairCheckEffect_def winEffect_def pairMatches_def Let_def
        split: if_splits sum.splits)
qed

section \<open>Events\<close>

text \<open>
  What can happen to the mounted component: the four commands of the presentation layer
  (\<open>handleNameSubmit\<close> reads the name from the state variable that the input's \<open>onChange\<close>
  writes, here \<open>NameChange\<close>), a tick of the interval, and the oldest pending timeout
  coming due (all are scheduled with the same delay, so they run in scheduling order).
  Each event is handled to completion, effects included, before the next one.
\<close>

datatype event =
    StartGame
  | CardClick nat
  | ResetGame
  | NameChange string
  | NameSubmit bool
  | Tick
  | TimeoutFires

text \<open>
  Every setter call of the handlers passes a new array, except \<open>setCards(shuffledCards)\<close>
  immediately after another one; there \<open>flippedCards\<close> changes all the same and the win
  effect, the only one that depends on \<open>cards\<close> alone, finds no card matched. A click
  that returns early calls no setter.
\<close>

fun step :: "App \<Rightarrow> event \<Rightarrow> error + App" where
  "step s StartGame = (let s' = handleStartGame s in settle s' (changes s s' True True))"
| "step s (CardClick index) =
    (case handleCardClick s index of
       Inl e \<Rightarrow> Inl e
     | Inr s' \<Rightarrow>
         let flipped = (flippedCards s' \<noteq> flippedCards s)
         in settle s' (changes s s' flipped flipped))"
| "step s ResetGame = (let s' = handleResetGame s in settle s' (changes s s' True True))"
| "step s (NameChange v) = Inr (s\<lparr>playerName := v\<rparr>)"
| "step s (NameSubmit setItemThrows) =
    (case handleNameSubmit setItemThrows s of
       Inl e \<Rightarrow> Inl e
     | Inr s' \<Rightarrow> settle s' (changes s s' False False))"
| "step s Tick = (let s' = tick s in settle s' (changes s s' False False))"
| "step s TimeoutFires =
    (case timeouts s of
       [] \<Rightarrow> Inr s
     | t # ts \<Rightarrow>
         let s' = timeoutCallback t (s\<lparr>timeouts := ts\<rparr>)
         in settle s' (changes s s' True True))"

text \<open>A sequence of events; an exception that escapes ends the run.\<close>

fun run :: "App \<Rightarrow> event list \<Rightarrow> error + App" where
  "run s [] = Inr s"
| "run s (ev # evs) = (case step s ev of Inl e \<Rightarrow> Inl e | Inr s' \<Rightarrow> run s' evs)"

section \<open>Auxiliary notions for the statements\<close>

text \<open>The cards of \<open>cs'\<close> are those of \<open>cs\<close>, position by position, with every matched one still matched.\<close>

definition keeps_matched :: "CardState list \<Rightarrow> CardState list \<Rightarrow> bool" where
  "keeps_matched cs cs' =
    (length cs' = length cs \<and> (\<forall>i<length cs. isMatched (cs ! i) \<longrightarrow> isMatched (cs' ! i)))"

text \<open>
  A mounted component for the examples: the random sort left the cards in their original
  order, so cards \<open>k\<close> and \<open>k + 10\<close> show image \<open>k\<close>; the store has no entry.
\<close>

definition demoApp :: App where
  "demoApp = mount [0..<20] NoItem False"

text \<open>
  The order of the ledger: less time first, fewer moves first among equal times. \<open>scoreKey\<close>
  is the pair the comparator of the source compares lexicographically.
\<close>

definition scoreKey :: "HighScore \<Rightarrow> int \<times> int" where
  "scoreKey h = (time h, moves_hs h)"

definition ranks_before :: "HighScore \<Rightarrow> HighScore \<Rightarrow> bool" where
  "ranks_before a b = (time a < time b \<or> (time a = time b \<and> moves_hs a \<le> moves_hs b))"

text \<open>Insertion behind the elements with an equal key: what a stable sort does with an appended element.\<close>

fun insert_last :: "('a \<Rightarrow> 'k::linorder) \<Rightarrow> 'a \<Rightarrow> 'a list \<Rightarrow> 'a list" where
  "insert_last f x [] = [x]"
| "insert_last f x (y # ys) = (if f y \<le> f x then y # insert_last f x ys else x # y # ys)"

text \<open>
  Two states of \<open>demoApp\<close> for the examples: a started game with one second left, and the
  same game after that second has passed.
\<close>

definition lastSecondApp :: App where
  "lastSecondApp = (projr (run demoApp [StartGame]))\<lparr>timeLeft := 1\<rparr>"

definition lostApp :: App where
  "lostApp = (projr (run demoApp [StartGame]))\<lparr>timeLeft := 0, gameState := Lost\<rparr>"

text \<open>
  A game of \<open>demoApp\<close> won in ten moves: 42 ticks, then each card followed by its partner,
  then the name typed in; and the state that run ends in.
\<close>

definition allPairs :: "event list" where
  "allPairs = concat (map (\<lambda>k. [CardClick k, CardClick (k + 10)]) [0..<10])"

definition awaitingApp :: App where
  "awaitingApp =
    (projr (run demoApp [StartGame]))
      \<lparr>cards := map (\<lambda>card. card\<lparr>isFlipped := True, isMatched := True\<rparr>) (shuffledCards [0..<20]),
       moves := 10, timeLeft := 138, gameState := AwaitingName, playerName := ''Ana''\<rparr>"

section \<open>Facts about the deck\<close>

lemma length_map_index [simp]: "length (map_index f xs) = length xs"
  by (simp add: map_index_def)

lemma nth_map_index [simp]: "i < length xs \<Longrightarrow> map_index f xs ! i = f (xs ! i) i"
  by (simp add: map_index_def)

lemma map_index_eq_map:
  "map_index (\<lambda>x i. g x) xs = map g xs"
  by (rule nth_equalityI) simp_all

lemma count_mset_map:
  "count (mset (map f xs)) k = length (filter (\<lambda>c. f c = k) xs)"
  by (induction xs) auto

lemma mset_sort_random:
  assumes "mset p = mset [0..<length xs]"
  shows "mset (sort_random p xs) = mset xs"
proof -
  have "mset (sort_random p xs) = image_mset (\<lambda>k. xs ! k) (mset p)"
    by (simp add: sort_random_def)
  also have "\<dots> = mset (map (\<lambda>k. xs ! k) [0..<length xs])"
    by (simp add: assms)
  also have "\<dots> = mset xs"
    by (simp add: map_nth)
  finally show ?thesis .
qed

lemma length_sort_random [simp]: "length (sort_random p xs) = length p"
  by (simp add: sort_random_def)

lemma length_cardPairs:
  "length (cardPairs pool rows cols) = min (length pool) ((rows * cols) div 2)"
  by (simp add: cardPairs_def Let_def min.commute)

lemma map_imageId_cardPairs:
  "map imageId (cardPairs pool rows cols) = [0..<min (length pool) ((rows * cols) div 2)]"
  by (rule nth_equalityI) (simp_all add: cardPairs_def Let_def min.commute)

lemma cardPairs_face_down:
  "c \<in> set (cardPairs pool rows cols) \<Longrightarrow> \<not> isFlipped c \<and> \<not> isMatched c"
  by (auto simp: cardPairs_def Let_def map_index_def)

lemma map_imageId_shuffledCards_of:
  "map imageId (shuffledCards_of pool rows cols p) =
     map imageId (sort_random p (cardPairs pool rows cols @ cardPairs pool rows cols))"
  by (rule nth_equalityI) (simp_all add: shuffledCards_of_def)

lemma map_id_card_shuffledCards_of:
  "map id_card (shuffledCards_of pool rows cols p) = [0..<length p]"
  by (rule nth_equalityI) (simp_all add: shuffledCards_of_def)

lemma mset_imageId_shuffledCards_of:
  assumes "mset p = mset [0..<2 * min (length pool) ((rows * cols) div 2)]"
  shows "mset (map imageId (shuffledCards_of pool rows cols p)) =
           mset [0..<min (length pool) ((rows * cols) div 2)]
         + mset [0..<min (length pool) ((rows * cols) div 2)]"
proof -
  let ?cp = "cardPairs pool rows cols"
  have len: "length (?cp @ ?cp) = 2 * min (length pool) ((rows * cols) div 2)"
    by (simp add: length_cardPairs)
  have "mset (sort_random p (?cp @ ?cp)) = mset (?cp @ ?cp)"
    by (rule mset_sort_random) (simp only: len assms)
  then have "image_mset imageId (mset (sort_random p (?cp @ ?cp)))
               = image_mset imageId (mset (?cp @ ?cp))"
    by simp
  then show ?thesis
    by (simp add: map_imageId_shuffledCards_of flip: mset_map map_imageId_cardPairs)
qed

lemma shuffledCards_of_face_down:
  assumes "mset p = mset [0..<2 * min (length pool) ((rows * cols) div 2)]"
    and "c \<in> set (shuffledCards_of pool rows cols p)"
  shows "\<not> isFlipped c \<and> \<not> isMatched c"
proof -
  let ?cp = "cardPairs pool rows cols"
  have len: "length (?cp @ ?cp) = 2 * min (length pool) ((rows * cols) div 2)"
    by (simp add: length_cardPairs)
  have m: "mset (sort_random p (?cp @ ?cp)) = mset (?cp @ ?cp)"
    by (rule mset_sort_random) (simp only: len assms)
  from assms(2) obtain d i where d: "d \<in> set (sort_random p (?cp @ ?cp))"
    and c: "c = d\<lparr>id_card := i\<rparr>"
    by (auto simp: shuffledCards_of_def map_index_def dest!: set_zip_rightD)
  from d m have "d \<in> set (?cp @ ?cp)"
    by (metis set_mset_mset)
  then have "\<not> isFlipped d \<and> \<not> isMatched d"
    by (auto dest: cardPairs_face_down)
  with c show ?thesis by simp
qed

text \<open>
  C2. Whatever order the random sort leaves the twenty cards in (any permutation \<open>p\<close> of the
  twenty positions), the deck has \<open>GRID_ROWS * GRID_COLS = 20\<close> cards, its image ids are
  exactly the ten values \<open>0..9\<close>, each on exactly two cards, every card starts with
  \<open>isFlipped = isMatched = false\<close>, and the ids, given after the shuffle, are \<open>0, 1, ..., 19\<close>
  in deck order.
\<close>

theorem shuffledCards_deck:
  assumes "mset p = mset [0..<GRID_ROWS * GRID_COLS]"
  shows "length (shuffledCards p) = GRID_ROWS * GRID_COLS
       \<and> GRID_ROWS * GRID_COLS = 20
       \<and> set (map imageId (shuffledCards p)) = {0..<10}
       \<and> (\<forall>k<10. length (filter (\<lambda>c. imageId c = k) (shuffledCards p)) = 2)
       \<and> (\<forall>c \<in> set (shuffledCards p). \<not> isFlipped c \<and> \<not> isMatched c)
       \<and> map id_card (shuffledCards p) = [0..<GRID_ROWS * GRID_COLS]"
proof -
  have lp: "length p = 20"
    using arg_cong [OF assms, of size] by (simp add: GRID_ROWS_def GRID_COLS_def)
  have m: "min (length IMAGE_PATHS) ((GRID_ROWS * GRID_COLS) div 2) = 10"
    by (simp add: IMAGE_PATHS_def GRID_ROWS_def GRID_COLS_def)
  have p: "mset p = mset [0..<2 * min (length IMAGE_PATHS) ((GRID_ROWS * GRID_COLS) div 2)]"
    using assms by (simp only: m) (simp add: GRID_ROWS_def GRID_COLS_def)
  have ids: "map id_card (shuffledCards p) = [0..<GRID_ROWS * GRID_COLS]"
    by (simp add: shuffledCards_def map_id_card_shuffledCards_of lp GRID_ROWS_def GRID_COLS_def)
  have len: "length (shuffledCards p) = GRID_ROWS * GRID_COLS"
    using arg_cong [OF ids, of length] by simp
  have ms: "mset (map imageId (shuffledCards p)) = mset [0..<10] + mset [0..<10]"
    using mset_imageId_shuffledCards_of [OF p] by (simp only: shuffledCards_def m)
  have "set_mset (mset (map imageId (shuffledCards p))) = {0..<10}"
    by (simp only: ms) auto
  then have st: "set (map imageId (shuffledCards p)) = {0..<10}"
    by (simp only: set_mset_mset)
  have cnt: "length (filter (\<lambda>c. imageId c = k) (shuffledCards p)) = 2" if "k < 10" for k
  proof -
    have "length (filter (\<lambda>c. imageId c = k) (shuffledCards p))
            = count (mset (map imageId (shuffledCards p))) k"
      by (rule count_mset_map [symmetric])
    also have "\<dots> = 2"
      using that by (simp only: ms) simp
    finally show ?thesis .
  qed
  have fd: "\<forall>c \<in> set (shuffledCards p). \<not> isFlipped c \<and> \<not> isMatched c"
    using shuffledCards_of_face_down [OF p] by (simp add: shuffledCards_def)
  show ?thesis
    using len st cnt fd ids by (simp add: GRID_ROWS_def GRID_COLS_def)
qed

theorem shuffledCards_deck_witness:
  "mset (rev [0..<20]) = mset [0..<GRID_ROWS * GRID_COLS]
   \<and> length (shuffledCards (rev [0..<20])) = 20
   \<and> set (map imageId (shuffledCards (rev [0..<20]))) = {0..<10}
   \<and> map id_card (shuffledCards (rev [0..<20])) = [0..<20]"
proof -
  have h: "mset (rev [0..<20]) = mset [0..<GRID_ROWS * GRID_COLS]"
    by (simp add: GRID_ROWS_def GRID_COLS_def)
  show ?thesis
    using h shuffledCards_deck [OF h] by (simp add: GRID_ROWS_def GRID_COLS_def)
qed

section \<open>The render cycle in closed form\<close>

declare settle.simps [simp del]

lemma timerEffect_idle: "gameState s \<noteq> Playing \<Longrightarrow> timerEffect s s = s"
  by (simp add: timerEffect_def)

lemma timerEffect_cases:
  "timerEffect r r = r \<or> (timerEffect r r = r\<lparr>gameState := Lost\<rparr> \<and> gameState r = Playing)"
  by (simp add: timerEffect_def)

lemma settle_idle:
  assumes "\<not> flippedCards_changed d" "\<not> cards_changed d" "gameState r \<noteq> Playing"
  shows "settle r d = Inr r"
proof (cases "effectsPending d")
  case False
  then show ?thesis by (subst settle.simps) simp
next
  case True
  have e: "runEffects r d = Inr r"
    using assms by (simp add: runEffects_def timerEffect_idle)
  have n: "\<not> effectsPending (nextDeps r d r)"
    using assms by (simp add: nextDeps_def changes_def effectsPending_def)
  show ?thesis
    using True e n by (subst settle.simps, simp, subst settle.simps, simp)
qed

lemma settle_timer:
  assumes "\<not> flippedCards_changed d" "\<not> cards_changed d"
  shows "settle r d = Inr (if gameState_changed d \<or> timeLeft_changed d then timerEffect r r else r)"
proof (cases "effectsPending d")
  case False
  then show ?thesis by (subst settle.simps) (simp add: effectsPending_def)
next
  case True
  let ?s = "timerEffect r r"
  have c: "gameState_changed d \<or> timeLeft_changed d"
    using True assms by (simp add: effectsPending_def)
  have e: "runEffects r d = Inr ?s"
    using assms c by (simp add: runEffects_def)
  have n: "settle ?s (nextDeps r d ?s) = Inr ?s"
  proof (cases "gameState ?s = Playing")
    case True
    then have "?s = r" using timerEffect_cases [of r] by auto
    then have "\<not> effectsPending (nextDeps r d ?s)"
      using assms by (simp add: nextDeps_def changes_def effectsPending_def)
    then show ?thesis by (subst settle.simps) simp
  next
    case False
    then show ?thesis
      using assms by (intro settle_idle) (simp_all add: nextDeps_def changes_def)
  qed
  show ?thesis
    using True e n c by (subst settle.simps) simp
qed

lemma runEffects_timeLeft: "runEffects r d = Inr s \<Longrightarrow> timeLeft s = timeLeft r"
  by (auto simp: runEffects_def timerEffect_def pairCheckEffect_def winEffect_def Let_def
      split: if_splits sum.splits)

lemma runEffects_gameState:
  "runEffects r d = Inr s \<Longrightarrow> gameState s \<noteq> gameState r \<Longrightarrow> gameState s \<noteq> Playing"
  by (auto simp: runEffects_def timerEffect_def pairCheckEffect_def winEffect_def Let_def
      split: if_splits sum.splits)

lemma runEffects_match_flippedCards:
  "runEffects r d = Inr s \<Longrightarrow> flippedCards_changed d \<or> cards_changed d \<Longrightarrow> pairMatches r
    \<Longrightarrow> flippedCards s = []"
  by (auto simp: runEffects_def timerEffect_def pairCheckEffect_def winEffect_def Let_def
      pairMatches_def split: if_splits sum.splits)

lemma winEffect_gameState:
  "gameState (winEffect s s) \<noteq> gameState s \<Longrightarrow> gameState (winEffect s s) \<noteq> Playing"
  by (auto simp: winEffect_def split: if_splits)

lemma settle_after_round:
  assumes "runEffects r d = Inr s"
  shows "settle s (changes r s False False) = Inr s"
proof -
  have "settle s (changes r s False False)
          = Inr (if gameState s \<noteq> gameState r \<or> timeLeft s \<noteq> timeLeft r
                 then timerEffect s s else s)"
    by (subst settle_timer) (simp_all add: changes_def)
  also have "\<dots> = Inr s"
    using runEffects_timeLeft [OF assms] runEffects_gameState [OF assms]
    by (simp add: timerEffect_idle)
  finally show ?thesis .
qed

lemma settle_eq:
  "settle r d =
    (if \<not> effectsPending d then Inr r
     else case runEffects r d of
            Inl e \<Rightarrow> Inl e
          | Inr s \<Rightarrow> Inr (if (flippedCards_changed d \<or> cards_changed d) \<and> pairMatches r
                         then winEffect s s else s))"
proof (cases "effectsPending d")
  case False
  then show ?thesis by (subst settle.simps) simp
next
  case pending: True
  show ?thesis
  proof (cases "runEffects r d")
    case (Inl e)
    then show ?thesis using pending by (subst settle.simps) simp
  next
    case (Inr s)
    show ?thesis
    proof (cases "(flippedCards_changed d \<or> cards_changed d) \<and> pairMatches r")
      case False
      then have "nextDeps r d s = changes r s False False"
        by (auto simp: nextDeps_def Let_def)
      then show ?thesis
        using pending Inr False settle_after_round [OF Inr] by (subst settle.simps) auto
    next
      case True
      let ?d = "changes r s True True"
      let ?w = "winEffect s s"
      have nd: "nextDeps r d s = ?d"
        using True by (auto simp: nextDeps_def Let_def)
      have fl: "flippedCards s = []"
        using runEffects_match_flippedCards [OF Inr] True by simp
      have t: "timerEffect s s = s \<or> gameState s = gameState r"
        using runEffects_gameState [OF Inr] by (auto simp: timerEffect_idle)
      have r2: "runEffects s ?d = Inr ?w"
        using fl t runEffects_timeLeft [OF Inr]
        by (auto simp: runEffects_def changes_def pairCheckEffect_def)
      have nd2: "nextDeps s ?d ?w = changes s ?w False False"
        using fl by (simp add: nextDeps_def pairMatches_def Let_def)
      have "settle s ?d = settle ?w (changes s ?w False False)"
        using r2 nd2 by (subst settle.simps) (simp add: effectsPending_def changes_def)
      also have "\<dots> = Inr ?w"
        by (rule settle_after_round [OF r2])
      finally show ?thesis
        using pending Inr True nd by (subst settle.simps) auto
    qed
  qed
qed

section \<open>Flipped cards and matched cards\<close>

lemma keeps_matched_refl [simp]: "keeps_matched cs cs"
  by (simp add: keeps_matched_def)

lemma keeps_matched_trans: "keeps_matched a b \<Longrightarrow> keeps_matched b c \<Longrightarrow> keeps_matched a c"
  by (simp add: keeps_matched_def)

lemma keeps_matched_map:
  "(\<And>c. isMatched c \<Longrightarrow> isMatched (f c)) \<Longrightarrow> keeps_matched cs (map f cs)"
  by (simp add: keeps_matched_def)

lemma keeps_matched_map_index:
  "(\<And>c i. isMatched c \<Longrightarrow> isMatched (f c i)) \<Longrightarrow> keeps_matched cs (map_index f cs)"
  by (simp add: keeps_matched_def)

lemma winEffect_fields [simp]:
  "cards (winEffect r s) = cards s" "flippedCards (winEffect r s) = flippedCards s"
  "isChecking (winEffect r s) = isChecking s" "timeouts (winEffect r s) = timeouts s"
  "highScores (winEffect r s) = highScores s" "localStorage (winEffect r s) = localStorage s"
  "shuffledCards_memo (winEffect r s) = shuffledCards_memo s"
  "moves (winEffect r s) = moves s" "timeLeft (winEffect r s) = timeLeft s"
  by (simp_all add: winEffect_def)

lemma timerEffect_fields [simp]:
  "cards (timerEffect r s) = cards s" "flippedCards (timerEffect r s) = flippedCards s"
  "isChecking (timerEffect r s) = isChecking s" "timeouts (timerEffect r s) = timeouts s"
  "highScores (timerEffect r s) = highScores s" "localStorage (timerEffect r s) = localStorage s"
  "shuffledCards_memo (timerEffect r s) = shuffledCards_memo s"
  "moves (timerEffect r s) = moves s" "timeLeft (timerEffect r s) = timeLeft s"
  by (simp_all add: timerEffect_def)

lemma pairCheckEffect_flippedCards:
  "pairCheckEffect r s = Inr s' \<Longrightarrow> flippedCards s' = flippedCards s \<or> flippedCards s' = []"
  by (auto simp: pairCheckEffect_def Let_def split: if_splits)

lemma pairCheckEffect_keeps_matched:
  "pairCheckEffect r s = Inr s' \<Longrightarrow> keeps_matched (cards s) (cards s')"
  by (auto simp: pairCheckEffect_def Let_def keeps_matched_map split: if_splits)

lemma settle_flippedCards:
  "settle r d = Inr s \<Longrightarrow> flippedCards s = flippedCards r \<or> flippedCards s = []"
  by (auto simp: settle_eq runEffects_def Let_def split: if_splits sum.splits
      dest: pairCheckEffect_flippedCards)

lemma settle_keeps_matched:
  "settle r d = Inr s \<Longrightarrow> keeps_matched (cards r) (cards s)"
  by (auto simp: settle_eq runEffects_def Let_def split: if_splits sum.splits
      dest: pairCheckEffect_keeps_matched)

lemma step_flippedCards_bound:
  assumes "step s ev = Inr s'" "length (flippedCards s) \<le> 2"
  shows "length (flippedCards s') \<le> 2"
proof (cases ev)
  case (CardClick index)
  with assms show ?thesis
    by (auto simp: handleCardClick_def Let_def split: if_splits sum.splits
        dest!: settle_flippedCards)
next
  case TimeoutFires
  with assms show ?thesis
    by (auto simp: timeoutCallback_def Let_def split: list.splits dest!: settle_flippedCards)
qed (use assms in \<open>auto simp: handleStartGame_def handleResetGame_def handleNameSubmit_def
       tick_def Let_def split: if_splits sum.splits scores.splits dest!: settle_flippedCards\<close>)

lemma step_keeps_matched:
  assumes "step s ev = Inr s'" "ev \<noteq> StartGame" "ev \<noteq> ResetGame"
  shows "keeps_matched (cards s) (cards s')"
proof (cases ev)
  case (CardClick index)
  with assms show ?thesis
    by (auto simp: handleCardClick_def Let_def keeps_matched_map_index split: if_splits sum.splits
        dest!: settle_keeps_matched elim!: keeps_matched_trans [rotated])
next
  case TimeoutFires
  with assms show ?thesis
    by (auto simp: timeoutCallback_def Let_def keeps_matched_map split: list.splits
        dest!: settle_keeps_matched elim!: keeps_matched_trans [rotated])
qed (use assms in \<open>auto simp: handleNameSubmit_def
       tick_def Let_def split: if_splits sum.splits scores.splits dest!: settle_keeps_matched\<close>)

lemma click_matched_ignored:
  assumes "index < length (cards s)" "isMatched (cards s ! index)"
  shows "step s (CardClick index) = Inr s"
  using assms by (simp add: handleCardClick_def settle_eq effectsPending_def changes_def)

lemma run_flippedCards_bound:
  "run s evs = Inr s' \<Longrightarrow> length (flippedCards s) \<le> 2 \<Longrightarrow> length (flippedCards s') \<le> 2"
proof (induction evs arbitrary: s)
  case Nil
  then show ?case by simp
next
  case (Cons ev evs)
  then show ?case
    by (auto split: sum.splits dest: step_flippedCards_bound)
qed

lemma run_keeps_matched:
  "run s evs = Inr s' \<Longrightarrow> \<forall>ev \<in> set evs. ev \<noteq> StartGame \<and> ev \<noteq> ResetGame
    \<Longrightarrow> keeps_matched (cards s) (cards s')"
proof (induction evs arbitrary: s)
  case Nil
  then show ?case by simp
next
  case (Cons ev evs)
  from Cons.prems obtain s1 where s1: "step s ev = Inr s1" and r: "run s1 evs = Inr s'"
    by (auto split: sum.splits)
  have "keeps_matched (cards s) (cards s1)"
    using s1 Cons.prems(2) by (intro step_keeps_matched) auto
  moreover have "keeps_matched (cards s1) (cards s')"
    using r Cons.prems(2) by (intro Cons.IH) auto
  ultimately show ?case by (rule keeps_matched_trans)
qed

text \<open>
  C1. From any state with at most two entries in \<open>flippedCards\<close> (a session starts with
  none), after any sequence of events that runs without an exception \<open>flippedCards\<close> still
  has at most two entries. If the sequence stays within the session (no \<open>StartGame\<close>, no
  \<open>ResetGame\<close>: card clicks, ticks, timeouts, name input), every card that was matched
  before is still there and still matched after it, and a click on it leaves the whole
  state as it is.
\<close>

theorem flipCard_sequences:
  assumes "run s evs = Inr s'" and "length (flippedCards s) \<le> 2"
  shows "length (flippedCards s') \<le> 2
       \<and> ((\<forall>ev \<in> set evs. ev \<noteq> StartGame \<and> ev \<noteq> ResetGame) \<longrightarrow>
            (\<forall>i<length (cards s). isMatched (cards s ! i) \<longrightarrow>
               i < length (cards s') \<and> isMatched (cards s' ! i)
               \<and> step s' (CardClick i) = Inr s'))"
proof (intro conjI impI allI)
  show "length (flippedCards s') \<le> 2"
    using assms by (rule run_flippedCards_bound)
next
  fix i
  assume ev: "\<forall>ev \<in> set evs. ev \<noteq> StartGame \<and> ev \<noteq> ResetGame"
    and i: "i < length (cards s)" and m: "isMatched (cards s ! i)"
  have k: "keeps_matched (cards s) (cards s')"
    using assms(1) ev by (rule run_keeps_matched)
  with i m show i': "i < length (cards s')" and m': "isMatched (cards s' ! i)"
    by (simp_all add: keeps_matched_def)
  then show "step s' (CardClick i) = Inr s'"
    by (rule click_matched_ignored)
qed

theorem flipCard_sequences_witness:
  "run (projr (run demoApp [StartGame, CardClick 0, CardClick 10]))
       [CardClick 0, CardClick 1, CardClick 2, CardClick 3, Tick, TimeoutFires, CardClick 10]
     = Inr (projr (run demoApp [StartGame, CardClick 0, CardClick 10, CardClick 1, CardClick 2,
                               Tick, TimeoutFires]))
   \<and> isMatched (cards (projr (run demoApp [StartGame, CardClick 0, CardClick 10])) ! 10)
   \<and> isMatched (cards (projr (run demoApp [StartGame, CardClick 0, CardClick 10, CardClick 1,
                                            CardClick 2, Tick, TimeoutFires])) ! 10)
   \<and> length (flippedCards (projr (run demoApp [StartGame, CardClick 0, CardClick 10,
                                            CardClick 1, CardClick 2]))) = 2"
proof -
  let ?s = "projr (run demoApp [StartGame, CardClick 0, CardClick 10])"
  let ?evs = "[CardClick 0, CardClick 1, CardClick 2, CardClick 3, Tick, TimeoutFires, CardClick 10]"
  let ?s' = "projr (run demoApp [StartGame, CardClick 0, CardClick 10, CardClick 1, CardClick 2,
                                Tick, TimeoutFires])"
  have r: "run ?s ?evs = Inr ?s'"
    by code_simp
  have b: "length (flippedCards ?s) \<le> 2"
    by code_simp
  have m: "10 < length (cards ?s) \<and> isMatched (cards ?s ! 10)"
    by code_simp
  have l: "length (flippedCards (projr (run demoApp [StartGame, CardClick 0, CardClick 10,
                                            CardClick 1, CardClick 2]))) = 2"
    by code_simp
  from flipCard_sequences [OF r b] m have "isMatched (cards ?s' ! 10)"
    by simp
  with r m l show ?thesis
    by simp
qed

section \<open>Resolution of a mismatch\<close>

lemma click_while_checking: "isChecking s \<Longrightarrow> step s (CardClick k) = Inr s"
  by (simp add: handleCardClick_def settle_eq effectsPending_def changes_def)

lemma tick_while_checking:
  assumes "isChecking s"
  shows "\<exists>s'. step s Tick = Inr s' \<and> isChecking s' \<and> cards s' = cards s
           \<and> flippedCards s' = flippedCards s \<and> timeouts s' = timeouts s"
  using assms by (auto simp: settle_timer changes_def tick_def timerEffect_def Let_def)

lemma run_while_checking:
  assumes "isChecking s" "\<forall>ev \<in> set evs. ev = Tick \<or> (\<exists>k. ev = CardClick k)"
  shows "\<exists>s'. run s evs = Inr s' \<and> isChecking s' \<and> cards s' = cards s
           \<and> flippedCards s' = flippedCards s \<and> timeouts s' = timeouts s"
  using assms
proof (induction evs arbitrary: s)
  case Nil
  then show ?case by simp
next
  case (Cons ev evs)
  from Cons.prems obtain s1 where s1: "step s ev = Inr s1" "isChecking s1" "cards s1 = cards s"
      "flippedCards s1 = flippedCards s" "timeouts s1 = timeouts s"
    using tick_while_checking [of s] click_while_checking [of s] by auto
  from Cons.IH [of s1] s1 Cons.prems(2) show ?case
    by auto
qed

lemma click_second_mismatch:
  assumes "\<not> isChecking s" "flippedCards s = [i]" "i < length (cards s)" "j < length (cards s)"
    "\<not> isFlipped (cards s ! j)" "\<not> isMatched (cards s ! j)"
    "imageId (cards s ! i) \<noteq> imageId (cards s ! j)"
  shows "step s (CardClick j) =
     Inr (s\<lparr>cards := map_index (\<lambda>card k. if k = j then card\<lparr>isFlipped := True\<rparr> else card) (cards s),
            flippedCards := [i, j], isChecking := True, moves := moves s + 1,
            mismatchedCards := [id_card (cards s ! i), id_card (cards s ! j)],
            timeouts := timeouts s @ [\<lparr>delay = 1000, firstId = id_card (cards s ! i),
                                       secondId = id_card (cards s ! j)\<rparr>]\<rparr>)"
proof -
  have ij: "i \<noteq> j" using assms(7) by auto
  have nm: "\<not> list_all isMatched
              (map_index (\<lambda>card k. if k = j then card\<lparr>isFlipped := True\<rparr> else card) (cards s))"
    using assms(4,6) by (auto simp: list_all_length intro!: exI [of _ j])
  show ?thesis
    using assms ij nm
    by (simp add: handleCardClick_def settle_eq effectsPending_def changes_def runEffects_def
        pairCheckEffect_def winEffect_def pairMatches_def Let_def)
qed

lemma timeout_unflips:
  assumes "timeouts s = [t]" "j < length (cards s)" "\<not> isMatched (cards s ! j)"
  shows "step s TimeoutFires =
     Inr (s\<lparr>timeouts := [],
            cards := map (\<lambda>card. if id_card card = firstId t \<or> id_card card = secondId t
                                 then card\<lparr>isFlipped := False\<rparr> else card) (cards s),
            flippedCards := [], mismatchedCards := [], isChecking := False\<rparr>)"
proof -
  have nm: "\<not> list_all isMatched
              (map (\<lambda>card. if id_card card = firstId t \<or> id_card card = secondId t
                                 then card\<lparr>isFlipped := False\<rparr> else card) (cards s))"
    using assms(2,3) by (auto simp: list_all_length intro!: exI [of _ j])
  show ?thesis
    using assms nm
    by (simp add: timeoutCallback_def settle_eq effectsPending_def changes_def runEffects_def
        pairCheckEffect_def winEffect_def pairMatches_def Let_def)
qed

text \<open>
  The mechanism when nothing is left over from an earlier session. Let one card, \<open>i\<close>, be
  face up and listed in \<open>flippedCards\<close>, no check and no timeout pending. A click on a
  face-down, unmatched card \<open>j\<close> with another image makes the pair-check find a mismatch:
  \<open>isChecking\<close> is set (the resolving sub-state), both cards are face up, and one callback
  is scheduled with delay 1000 for the two card ids. In that state every click, on
  whatever index, leaves the state as it is, and this stays so through any clicks and
  timer ticks that arrive before the callback. When the callback runs (the delay has
  elapsed), both cards are face down again, \<open>flippedCards\<close> is empty and \<open>isChecking\<close> is
  false.
\<close>

theorem mismatch_resolution:
  assumes "\<not> isChecking s" and "flippedCards s = [i]" and "timeouts s = []"
    and "i < length (cards s)" and "j < length (cards s)"
    and "isFlipped (cards s ! i)"
    and "\<not> isFlipped (cards s ! j)" and "\<not> isMatched (cards s ! j)"
    and "imageId (cards s ! i) \<noteq> imageId (cards s ! j)"
    and "\<forall>ev \<in> set evs. ev = Tick \<or> (\<exists>k. ev = CardClick k)"
  shows "\<exists>s1 s1' s2.
           step s (CardClick j) = Inr s1
         \<and> isChecking s1 \<and> flippedCards s1 = [i, j]
         \<and> isFlipped (cards s1 ! i) \<and> isFlipped (cards s1 ! j)
         \<and> timeouts s1 = [\<lparr>delay = 1000, firstId = id_card (cards s ! i),
                             secondId = id_card (cards s ! j)\<rparr>]
         \<and> (\<forall>k. step s1 (CardClick k) = Inr s1)
         \<and> run s1 evs = Inr s1'
         \<and> isChecking s1' \<and> flippedCards s1' = [i, j] \<and> cards s1' = cards s1
         \<and> (\<forall>k. step s1' (CardClick k) = Inr s1')
         \<and> step s1' TimeoutFires = Inr s2
         \<and> \<not> isFlipped (cards s2 ! i) \<and> \<not> isFlipped (cards s2 ! j)
         \<and> flippedCards s2 = [] \<and> \<not> isChecking s2 \<and> timeouts s2 = []"
proof -
  let ?t = "\<lparr>delay = 1000, firstId = id_card (cards s ! i), secondId = id_card (cards s ! j)\<rparr>"
  let ?s1 = "s\<lparr>cards := map_index (\<lambda>card k. if k = j then card\<lparr>isFlipped := True\<rparr> else card) (cards s),
            flippedCards := [i, j], isChecking := True, moves := moves s + 1,
            mismatchedCards := [id_card (cards s ! i), id_card (cards s ! j)],
            timeouts := timeouts s @ [?t]\<rparr>"
  have c: "step s (CardClick j) = Inr ?s1"
    using assms(1,2,4,5,7,8,9) by (rule click_second_mismatch)
  have ch: "isChecking ?s1" by simp
  obtain s1' where r: "run ?s1 evs = Inr s1'" and ch': "isChecking s1'"
      and cs: "cards s1' = cards ?s1" and fl: "flippedCards s1' = flippedCards ?s1"
      and ts: "timeouts s1' = timeouts ?s1"
    using run_while_checking [OF ch assms(10)] by blast
  have ts': "timeouts s1' = [?t]"
    using ts assms(3) by simp
  have j': "j < length (cards s1')" "\<not> isMatched (cards s1' ! j)"
    using cs assms(5,8) by simp_all
  let ?s2 = "s1'\<lparr>timeouts := [],
            cards := map (\<lambda>card. if id_card card = firstId ?t \<or> id_card card = secondId ?t
                                 then card\<lparr>isFlipped := False\<rparr> else card) (cards s1'),
            flippedCards := [], mismatchedCards := [], isChecking := False\<rparr>"
  have t: "step s1' TimeoutFires = Inr ?s2"
    using ts' j' by (rule timeout_unflips)
  have f1: "flippedCards ?s1 = [i, j]" by simp
  have f2: "isFlipped (cards ?s1 ! i)" "isFlipped (cards ?s1 ! j)"
    using assms(4,5,6) by simp_all
  have f3: "timeouts ?s1 = [?t]"
    using assms(3) by simp
  have k1: "\<forall>k. step ?s1 (CardClick k) = Inr ?s1"
    using click_while_checking [OF ch] by blast
  have k1': "\<forall>k. step s1' (CardClick k) = Inr s1'"
    using click_while_checking [OF ch'] by blast
  have fl': "flippedCards s1' = [i, j]"
    using fl by simp
  have g1: "\<not> isFlipped (cards ?s2 ! i)" "\<not> isFlipped (cards ?s2 ! j)"
    using cs assms(4,5) by simp_all
  have g2: "flippedCards ?s2 = []" "\<not> isChecking ?s2" "timeouts ?s2 = []"
    by simp_all
  show ?thesis
    by (rule exI [of _ ?s1], rule exI [of _ s1'], rule exI [of _ ?s2])
       (intro conjI; fact c ch f1 f2 f3 k1 r ch' fl' cs k1' t g1 g2)
qed

lemma run_append:
  "run s evs = Inr s' \<Longrightarrow> run s' evs' = Inr s'' \<Longrightarrow> run s (evs @ evs') = Inr s''"
  by (induction evs arbitrary: s) (auto split: sum.splits)

lemma run_single: "step s ev = Inr s' \<Longrightarrow> run s [ev] = Inr s'"
  by simp

theorem mismatch_resolution_witness:
  "\<not> isChecking (projr (run demoApp [StartGame, CardClick 1]))
   \<and> flippedCards (projr (run demoApp [StartGame, CardClick 1])) = [1]
   \<and> imageId (cards (projr (run demoApp [StartGame, CardClick 1])) ! 1)
       \<noteq> imageId (cards (projr (run demoApp [StartGame, CardClick 1])) ! 2)
   \<and> (\<exists>s2. run demoApp [StartGame, CardClick 1, CardClick 2, CardClick 3, Tick, CardClick 2,
                             TimeoutFires] = Inr s2
            \<and> \<not> isFlipped (cards s2 ! 1) \<and> \<not> isFlipped (cards s2 ! 2)
            \<and> flippedCards s2 = [] \<and> \<not> isChecking s2)"
proof -
  let ?s = "projr (run demoApp [StartGame, CardClick 1])"
  let ?evs = "[CardClick 3, Tick, CardClick 2]"
  have a: "run demoApp [StartGame, CardClick 1] = Inr ?s"
    by code_simp
  have h1: "\<not> isChecking ?s" and h2: "flippedCards ?s = [1]" and h3: "timeouts ?s = []"
    and h4: "1 < length (cards ?s)" and h5: "2 < length (cards ?s)"
    and h6: "isFlipped (cards ?s ! 1)"
    and h7: "\<not> isFlipped (cards ?s ! 2)" and h8: "\<not> isMatched (cards ?s ! 2)"
    and h9: "imageId (cards ?s ! 1) \<noteq> imageId (cards ?s ! 2)"
    by code_simp+
  have h10: "\<forall>ev \<in> set ?evs. ev = Tick \<or> (\<exists>k. ev = CardClick k)"
    by simp
  from mismatch_resolution [OF h1 h2 h3 h4 h5 h6 h7 h8 h9 h10]
  obtain s1 s1' s2 where c: "step ?s (CardClick 2) = Inr s1" and r: "run s1 ?evs = Inr s1'"
    and t: "step s1' TimeoutFires = Inr s2"
    and g: "\<not> isFlipped (cards s2 ! 1)" "\<not> isFlipped (cards s2 ! 2)"
      "flippedCards s2 = []" "\<not> isChecking s2"
    by blast
  have "run demoApp ([StartGame, CardClick 1] @ [CardClick 2] @ ?evs @ [TimeoutFires]) = Inr s2"
    by (intro run_append [OF a] run_append [OF run_single [OF c]] run_append [OF r]
        run_single [OF t])
  then have "run demoApp [StartGame, CardClick 1, CardClick 2, CardClick 3, Tick, CardClick 2,
                         TimeoutFires] = Inr s2"
    by (simp only: append.simps)
  with g h1 h2 h9 show ?thesis
    by blast
qed

section \<open>The high-score ledger\<close>

lemma compareScores_le: "compareScores a b \<le> 0 \<longleftrightarrow> scoreKey a \<le> scoreKey b"
  by (auto simp: compareScores_def scoreKey_def)

lemma ranks_before_key: "ranks_before a b \<longleftrightarrow> scoreKey a \<le> scoreKey b"
  by (auto simp: ranks_before_def scoreKey_def)

lemma insert_by_compareScores: "insert_by compareScores x ys = insort_key scoreKey x ys"
  by (induction ys) (simp_all add: compareScores_le)

lemma sort_by_compareScores: "sort_by compareScores xs = sort_key scoreKey xs"
  by (induction xs) (simp_all add: sort_by_def insert_by_compareScores)

lemma insort_insert_last:
  "insort_key f x (insert_last f e ys) = insert_last f e (insort_key f x ys)"
  by (induction ys) auto

lemma sort_key_snoc: "sort_key f (xs @ [e]) = insert_last f e (sort_key f xs)"
  by (induction xs) (simp_all add: insort_insert_last)

lemma take_Cons_take: "take n (y # take n ys) = take n (y # ys)"
  by (cases n) (simp_all add: min_def)

lemma take_insert_last: "take n (insert_last f e (take n ys)) = take n (insert_last f e ys)"
proof (induction ys arbitrary: n)
  case Nil
  then show ?case by (cases n) simp_all
next
  case (Cons y ys)
  show ?case
  proof (cases n)
    case 0
    then show ?thesis by simp
  next
    case (Suc m)
    then show ?thesis
      using Cons.IH [of m] by (simp add: take_Cons_take)
  qed
qed

lemma sorted_map_take: "sorted (map f xs) \<Longrightarrow> sorted (map f (take n xs))"
  by (simp add: take_map [symmetric] sorted_wrt_take)

lemma take_sort_key_snoc:
  "take n (sort_key f (take n (sort_key f xs) @ [e])) = take n (sort_key f (xs @ [e]))"
proof -
  have "sort_key f (take n (sort_key f xs)) = take n (sort_key f xs)"
    by (intro sort_key_id_if_sorted sorted_map_take sorted_sort_key)
  then show ?thesis
    by (simp add: sort_key_snoc take_insert_last)
qed

lemma updatedScores_key:
  "updatedScores hs e = take 5 (sort_key scoreKey (hs @ [e]))"
  by (simp add: updatedScores_def sort_by_compareScores)

lemma foldl_updatedScores_snoc:
  "foldl updatedScores l0 (es @ [e]) = take 5 (sort_key scoreKey (l0 @ es @ [e]))"
proof (induction es arbitrary: e rule: rev_induct)
  case Nil
  then show ?case by (simp add: updatedScores_key)
next
  case (snoc x xs)
  have "foldl updatedScores l0 ((xs @ [x]) @ [e])
          = updatedScores (foldl updatedScores l0 (xs @ [x])) e"
    by simp
  also have "\<dots> = take 5 (sort_key scoreKey (take 5 (sort_key scoreKey (l0 @ xs @ [x])) @ [e]))"
    by (simp only: snoc.IH updatedScores_key)
  also have "\<dots> = take 5 (sort_key scoreKey ((l0 @ xs @ [x]) @ [e]))"
    by (rule take_sort_key_snoc)
  finally show ?case by simp
qed

lemma foldl_updatedScores:
  "es \<noteq> [] \<Longrightarrow> foldl updatedScores l0 es = take 5 (sort_by compareScores (l0 @ es))"
  using foldl_updatedScores_snoc [of l0 "butlast es" "last es"]
  by (simp add: sort_by_compareScores)

lemma sorted_wrt_ranks:
  "sorted_wrt ranks_before xs \<longleftrightarrow> sorted (map scoreKey xs)"
  by (simp add: sorted_map ranks_before_key [abs_def])

lemma take_drop_sorted:
  assumes "sorted (map f xs)" "y \<in> set (take n xs)" "x \<in> set (drop n xs)"
  shows "f y \<le> f x"
proof -
  have "sorted (map f (take n xs) @ map f (drop n xs))"
    using assms(1) by (simp flip: map_append)
  then show ?thesis
    using assms(2,3) by (auto simp: sorted_append)
qed

text \<open>
  C4. \<open>updatedScores\<close> is the record operation. Starting from the empty ledger, the ledger
  after any sequence of records is the first five of all recorded entries in sorted order.
  Starting from any ledger \<open>l0\<close>, after at least one record the ledger is the first five of
  the sorted list of \<open>l0\<close> and the recorded entries; it is in ascending order of time, then
  moves; it has at most five entries; and every entry left out ranks no better than any
  entry kept.
\<close>

theorem ledger_best_five:
  "foldl updatedScores [] es = take 5 (sort_by compareScores es)
   \<and> (let recorded = l0 @ e # es; ledger = foldl updatedScores l0 (e # es)
      in ledger = take 5 (sort_by compareScores recorded)
       \<and> sorted_wrt ranks_before ledger
       \<and> length ledger \<le> 5
       \<and> (\<exists>rest. mset recorded = mset ledger + mset rest
                 \<and> (\<forall>x \<in> set rest. \<forall>y \<in> set ledger. ranks_before y x)))"
proof -
  let ?rec = "l0 @ e # es"
  let ?srt = "sort_key scoreKey ?rec"
  have 1: "foldl updatedScores [] es = take 5 (sort_by compareScores es)"
  proof (cases "es = []")
    case True
    then show ?thesis by (simp add: sort_by_def)
  next
    case False
    then show ?thesis using foldl_updatedScores [of es "[]"] by simp
  qed
  have l: "foldl updatedScores l0 (e # es) = take 5 ?srt"
    using foldl_updatedScores [of "e # es" l0] by (simp add: sort_by_compareScores)
  have s: "sorted (map scoreKey ?srt)"
    by (rule sorted_sort_key)
  have 2: "sorted_wrt ranks_before (take 5 ?srt)"
    using s by (simp only: sorted_wrt_ranks sorted_map_take)
  have "mset ?rec = mset (take 5 ?srt @ drop 5 ?srt)"
    by (simp only: append_take_drop_id mset_sort)
  then have 3: "mset ?rec = mset (take 5 ?srt) + mset (drop 5 ?srt)"
    by (simp only: mset_append)
  have 4: "\<forall>x \<in> set (drop 5 ?srt). \<forall>y \<in> set (take 5 ?srt). ranks_before y x"
    using take_drop_sorted [OF s] by (simp add: ranks_before_key)
  show ?thesis
    unfolding Let_def l
    using 1 2 3 4 by (auto simp: sort_by_compareScores)
qed

theorem ledger_best_five_witness:
  "foldl updatedScores []
     [\<lparr>name = ''Ana'', time = 50, moves_hs = 12\<rparr>, \<lparr>name = ''Bea'', time = 42, moves_hs = 10\<rparr>,
      \<lparr>name = ''Caz'', time = 42, moves_hs = 9\<rparr>, \<lparr>name = ''Dan'', time = 60, moves_hs = 8\<rparr>,
      \<lparr>name = ''Eli'', time = 30, moves_hs = 20\<rparr>, \<lparr>name = ''Fay'', time = 42, moves_hs = 10\<rparr>]
   = [\<lparr>name = ''Eli'', time = 30, moves_hs = 20\<rparr>, \<lparr>name = ''Caz'', time = 42, moves_hs = 9\<rparr>,
      \<lparr>name = ''Bea'', time = 42, moves_hs = 10\<rparr>, \<lparr>name = ''Fay'', time = 42, moves_hs = 10\<rparr>,
      \<lparr>name = ''Ana'', time = 50, moves_hs = 12\<rparr>]"
proof -
  let ?es = "[\<lparr>name = ''Ana'', time = 50, moves_hs = 12\<rparr>, \<lparr>name = ''Bea'', time = 42, moves_hs = 10\<rparr>,
      \<lparr>name = ''Caz'', time = 42, moves_hs = 9\<rparr>, \<lparr>name = ''Dan'', time = 60, moves_hs = 8\<rparr>,
      \<lparr>name = ''Eli'', time = 30, moves_hs = 20\<rparr>, \<lparr>name = ''Fay'', time = 42, moves_hs = 10\<rparr>]"
  have "take 5 (sort_by compareScores ?es)
     = [\<lparr>name = ''Eli'', time = 30, moves_hs = 20\<rparr>, \<lparr>name = ''Caz'', time = 42, moves_hs = 9\<rparr>,
      \<lparr>name = ''Bea'', time = 42, moves_hs = 10\<rparr>, \<lparr>name = ''Fay'', time = 42, moves_hs = 10\<rparr>,
      \<lparr>name = ''Ana'', time = 50, moves_hs = 12\<rparr>]"
    by (simp add: sort_by_def compareScores_def)
  with ledger_best_five [of ?es] show ?thesis
    by (simp only:)
qed

section \<open>Commands that are ignored\<close>

lemma step_unchanged: "settle s (changes s s False False) = Inr s"
  by (simp add: settle_eq effectsPending_def changes_def)

lemma lastSecondApp_reached: "run demoApp (StartGame # replicate 179 Tick) = Inr lastSecondApp"
  by code_simp

lemma lostApp_reached: "run demoApp (StartGame # replicate 179 Tick @ [Tick]) = Inr lostApp"
proof -
  have "step lastSecondApp Tick = Inr lostApp"
    by code_simp
  then have "run lastSecondApp [Tick] = Inr lostApp"
    by (rule run_single)
  with lastSecondApp_reached
  have "run demoApp ((StartGame # replicate 179 Tick) @ [Tick]) = Inr lostApp"
    by (rule run_append)
  then show ?thesis
    by (simp only: append.simps)
qed

text \<open>
  C5, as stated, fails on two inputs. In a running game a click with index 20, one past
  the last card, raises a \<open>TypeError\<close>. And once the time has run out (phase \<open>Lost\<close>) a
  click on card 0 still goes through: the state after it is not the state before it.
\<close>

theorem invalid_flip_counterexample:
  "run demoApp [StartGame, CardClick 20] = Inl TypeError
   \<and> run demoApp (StartGame # replicate 179 Tick @ [Tick]) = Inr lostApp
   \<and> gameState lostApp = Lost
   \<and> step lostApp (CardClick 0) \<noteq> Inr lostApp"
proof -
  have "run demoApp [StartGame, CardClick 20] = Inl TypeError"
    by code_simp
  moreover have "gameState lostApp = Lost"
    by (simp add: lostApp_def)
  moreover have "step lostApp (CardClick 0) \<noteq> Inr lostApp"
    by code_simp
  ultimately show ?thesis
    using lostApp_reached by blast
qed

text \<open>
  C5, amended. A click is a silent no-op that leaves the whole state unchanged when a
  mismatch is being resolved, when \<open>flippedCards\<close> holds two cards, or when the index is
  a position of \<open>cards\<close> whose card is face up or matched; so is a name submission whose
  name trims to the empty string. \<open>handleCardClick\<close> checks neither the bounds of the
  index nor the phase: outside the first two cases an index that is not a position of
  \<open>cards\<close> raises a \<open>TypeError\<close>, and a face-down, unmatched card is turned face up and
  appended to \<open>flippedCards\<close> in whatever phase the game is.
\<close>

theorem ignored_commands:
  "(isChecking s \<or> length (flippedCards s) = 2
      \<or> (index < length (cards s)
          \<and> (isFlipped (cards s ! index) \<or> isMatched (cards s ! index)))
     \<longrightarrow> step s (CardClick index) = Inr s)
   \<and> (trim (playerName s) = [] \<longrightarrow> step s (NameSubmit setItemThrows) = Inr s)
   \<and> (\<not> isChecking s \<and> length (flippedCards s) \<noteq> 2 \<and> length (cards s) \<le> index
     \<longrightarrow> step s (CardClick index) = Inl TypeError)
   \<and> (\<not> isChecking s \<and> length (flippedCards s) \<noteq> 2 \<and> index < length (cards s)
      \<and> \<not> isFlipped (cards s ! index) \<and> \<not> isMatched (cards s ! index)
     \<longrightarrow> (\<exists>s'. handleCardClick s index = Inr s' \<and> isFlipped (cards s' ! index)
              \<and> flippedCards s' = flippedCards s @ [index] \<and> gameState s' = gameState s))"
  by (auto simp: handleCardClick_def handleNameSubmit_def step_unchanged)

theorem ignored_commands_witness:
  "isChecking (projr (run demoApp [StartGame, CardClick 1, CardClick 2]))
   \<and> step (projr (run demoApp [StartGame, CardClick 1, CardClick 2])) (CardClick 25)
       = Inr (projr (run demoApp [StartGame, CardClick 1, CardClick 2]))
   \<and> trim (playerName (projr (run demoApp [NameChange ''  '']))) = []
   \<and> step (projr (run demoApp [NameChange ''  ''])) (NameSubmit False)
       = Inr (projr (run demoApp [NameChange ''  '']))
   \<and> \<not> isChecking (projr (run demoApp [StartGame])) 
   \<and> length (flippedCards (projr (run demoApp [StartGame]))) \<noteq> 2
   \<and> length (cards (projr (run demoApp [StartGame]))) \<le> 20
   \<and> step (projr (run demoApp [StartGame])) (CardClick 20) = Inl TypeError"
proof -
  let ?a = "projr (run demoApp [StartGame, CardClick 1, CardClick 2])"
  let ?b = "projr (run demoApp [NameChange ''  ''])"
  let ?c = "projr (run demoApp [StartGame])"
  have a: "isChecking ?a" by code_simp
  have b: "trim (playerName ?b) = []" by code_simp
  have c: "\<not> isChecking ?c" "length (flippedCards ?c) \<noteq> 2" "length (cards ?c) \<le> 20"
    by code_simp+
  from a ignored_commands [of ?a 25] have 1: "step ?a (CardClick 25) = Inr ?a"
    by blast
  from b ignored_commands [of ?b _ False] have 2: "step ?b (NameSubmit False) = Inr ?b"
    by blast
  from c ignored_commands [of ?c 20] have 3: "step ?c (CardClick 20) = Inl TypeError"
    by blast
  from a b c 1 2 3 show ?thesis
    by blast
qed

section \<open>A timeout that outlives its session\<close>

text \<open>
  C6. The claim fails on the code. With one second left, cards 0 and 1 are turned up and do
  not match, so a callback for the ids 0 and 1 is scheduled. The last tick ends the game
  (\<open>Lost\<close>), the player resets, starts again and turns up card 5, all before the callback
  comes due. The callback is still pending in the new session, and when it runs it empties
  \<open>flippedCards\<close> of that session while card 5 stays face up.
\<close>

theorem stale_timeout_in_new_session:
  "run demoApp (StartGame # replicate 179 Tick) = Inr lastSecondApp
   \<and> \<not> isl (run lastSecondApp [CardClick 0, CardClick 1, Tick, ResetGame, StartGame, CardClick 5])
   \<and> flippedCards (projr (run lastSecondApp
         [CardClick 0, CardClick 1, Tick, ResetGame, StartGame, CardClick 5])) = [5]
   \<and> timeouts (projr (run lastSecondApp
         [CardClick 0, CardClick 1, Tick, ResetGame, StartGame, CardClick 5]))
       = [\<lparr>delay = 1000, firstId = 0, secondId = 1\<rparr>]
   \<and> \<not> isl (run lastSecondApp
         [CardClick 0, CardClick 1, Tick, ResetGame, StartGame, CardClick 5, TimeoutFires])
   \<and> flippedCards (projr (run lastSecondApp
         [CardClick 0, CardClick 1, Tick, ResetGame, StartGame, CardClick 5, TimeoutFires])) = []
   \<and> isFlipped (cards (projr (run lastSecondApp
         [CardClick 0, CardClick 1, Tick, ResetGame, StartGame, CardClick 5, TimeoutFires])) ! 5)"
proof -
  have "\<not> isl (run lastSecondApp [CardClick 0, CardClick 1, Tick, ResetGame, StartGame, CardClick 5])
   \<and> flippedCards (projr (run lastSecondApp
         [CardClick 0, CardClick 1, Tick, ResetGame, StartGame, CardClick 5])) = [5]
   \<and> timeouts (projr (run lastSecondApp
         [CardClick 0, CardClick 1, Tick, ResetGame, StartGame, CardClick 5]))
       = [\<lparr>delay = 1000, firstId = 0, secondId = 1\<rparr>]
   \<and> \<not> isl (run lastSecondApp
         [CardClick 0, CardClick 1, Tick, ResetGame, StartGame, CardClick 5, TimeoutFires])
   \<and> flippedCards (projr (run lastSecondApp
         [CardClick 0, CardClick 1, Tick, ResetGame, StartGame, CardClick 5, TimeoutFires])) = []
   \<and> isFlipped (cards (projr (run lastSecondApp
         [CardClick 0, CardClick 1, Tick, ResetGame, StartGame, CardClick 5, TimeoutFires])) ! 5)"
    by code_simp
  with lastSecondApp_reached show ?thesis
    by (simp only: simp_thms)
qed

text \<open>
  C3. The claim fails on the code, by the defect of C6. A callback for the ids 0 and 1 is
  left over from a lost game when, in the next session, cards 5 and 6 are turned up and do
  not match. The pair-check sets \<open>isChecking\<close> and schedules its own callback behind the
  old one. The old one comes due first: it clears \<open>isChecking\<close> and \<open>flippedCards\<close> while
  cards 5 and 6 are still face up and their own callback is still pending, so the
  resolving sub-state has ended before its delay elapsed, and the next click, on card 7,
  is accepted.
\<close>

theorem stale_timeout_ends_resolution_early:
  "run demoApp (StartGame # replicate 179 Tick) = Inr lastSecondApp
   \<and> \<not> isl (run lastSecondApp
         [CardClick 0, CardClick 1, Tick, ResetGame, StartGame, CardClick 5, CardClick 6])
   \<and> imageId (cards (projr (run lastSecondApp
         [CardClick 0, CardClick 1, Tick, ResetGame, StartGame, CardClick 5, CardClick 6])) ! 5)
       \<noteq> imageId (cards (projr (run lastSecondApp
         [CardClick 0, CardClick 1, Tick, ResetGame, StartGame, CardClick 5, CardClick 6])) ! 6)
   \<and> isChecking (projr (run lastSecondApp
         [CardClick 0, CardClick 1, Tick, ResetGame, StartGame, CardClick 5, CardClick 6]))
   \<and> flippedCards (projr (run lastSecondApp
         [CardClick 0, CardClick 1, Tick, ResetGame, StartGame, CardClick 5, CardClick 6])) = [5, 6]
   \<and> timeouts (projr (run lastSecondApp
         [CardClick 0, CardClick 1, Tick, ResetGame, StartGame, CardClick 5, CardClick 6]))
       = [\<lparr>delay = 1000, firstId = 0, secondId = 1\<rparr>, \<lparr>delay = 1000, firstId = 5, secondId = 6\<rparr>]
   \<and> \<not> isl (run lastSecondApp
         [CardClick 0, CardClick 1, Tick, ResetGame, StartGame, CardClick 5, CardClick 6, TimeoutFires])
   \<and> \<not> isChecking (projr (run lastSecondApp
         [CardClick 0, CardClick 1, Tick, ResetGame, StartGame, CardClick 5, CardClick 6, TimeoutFires]))
   \<and> flippedCards (projr (run lastSecondApp
         [CardClick 0, CardClick 1, Tick, ResetGame, StartGame, CardClick 5, CardClick 6, TimeoutFires])) = []
   \<and> isFlipped (cards (projr (run lastSecondApp
         [CardClick 0, CardClick 1, Tick, ResetGame, StartGame, CardClick 5, CardClick 6, TimeoutFires])) ! 5)
   \<and> isFlipped (cards (projr (run lastSecondApp
         [CardClick 0, CardClick 1, Tick, ResetGame, StartGame, CardClick 5, CardClick 6, TimeoutFires])) ! 6)
   \<and> timeouts (projr (run lastSecondApp
         [CardClick 0, CardClick 1, Tick, ResetGame, StartGame, CardClick 5, CardClick 6, TimeoutFires]))
       = [\<lparr>delay = 1000, firstId = 5, secondId = 6\<rparr>]
   \<and> \<not> isl (run lastSecondApp
         [CardClick 0, CardClick 1, Tick, ResetGame, StartGame, CardClick 5, CardClick 6, TimeoutFires, CardClick 7])
   \<and> isFlipped (cards (projr (run lastSecondApp
         [CardClick 0, CardClick 1, Tick, ResetGame, StartGame, CardClick 5, CardClick 6, TimeoutFires, CardClick 7])) ! 7)
   \<and> flippedCards (projr (run lastSecondApp
         [CardClick 0, CardClick 1, Tick, ResetGame, StartGame, CardClick 5, CardClick 6, TimeoutFires, CardClick 7])) = [7]"
proof -
  have
  "\<not> isl (run lastSecondApp
         [CardClick 0, CardClick 1, Tick, ResetGame, StartGame, CardClick 5, CardClick 6])
   \<and> imageId (cards (projr (run lastSecondApp
         [CardClick 0, CardClick 1, Tick, ResetGame, StartGame, CardClick 5, CardClick 6])) ! 5)
       \<noteq> imageId (cards (projr (run lastSecondApp
         [CardClick 0, CardClick 1, Tick, ResetGame, StartGame, CardClick 5, CardClick 6])) ! 6)
   \<and> isChecking (projr (run lastSecondApp
         [CardClick 0, CardClick 1, Tick, ResetGame, StartGame, CardClick 5, CardClick 6]))
   \<and> flippedCards (projr (run lastSecondApp
         [CardClick 0, CardClick 1, Tick, ResetGame, StartGame, CardClick 5, CardClick 6])) = [5, 6]
   \<and> timeouts (projr (run lastSecondApp
         [CardClick 0, CardClick 1, Tick, ResetGame, StartGame, CardClick 5, CardClick 6]))
       = [\<lparr>delay = 1000, firstId = 0, secondId = 1\<rparr>, \<lparr>delay = 1000, firstId = 5, secondId = 6\<rparr>]
   \<and> \<not> isl (run lastSecondApp
         [CardClick 0, CardClick 1, Tick, ResetGame, StartGame, CardClick 5, CardClick 6, TimeoutFires])
   \<and> \<not> isChecking (projr (run lastSecondApp
         [CardClick 0, CardClick 1, Tick, ResetGame, StartGame, CardClick 5, CardClick 6, TimeoutFires]))
   \<and> flippedCards (projr (run lastSecondApp
         [CardClick 0, CardClick 1, Tick, ResetGame, StartGame, CardClick 5, CardClick 6, TimeoutFires])) = []
   \<and> isFlipped (cards (projr (run lastSecondApp
         [CardClick 0, CardClick 1, Tick, ResetGame, StartGame, CardClick 5, CardClick 6, TimeoutFires])) ! 5)
   \<and> isFlipped (cards (projr (run lastSecondApp
         [CardClick 0, CardClick 1, Tick, ResetGame, StartGame, CardClick 5, CardClick 6, TimeoutFires])) ! 6)
   \<and> timeouts (projr (run lastSecondApp
         [CardClick 0, CardClick 1, Tick, ResetGame, StartGame, CardClick 5, CardClick 6, TimeoutFires]))
       = [\<lparr>delay = 1000, firstId = 5, secondId = 6\<rparr>]
   \<and> \<not> isl (run lastSecondApp
         [CardClick 0, CardClick 1, Tick, ResetGame, StartGame, CardClick 5, CardClick 6, TimeoutFires, CardClick 7])
   \<and> isFlipped (cards (projr (run lastSecondApp
         [CardClick 0, CardClick 1, Tick, ResetGame, StartGame, CardClick 5, CardClick 6, TimeoutFires, CardClick 7])) ! 7)
   \<and> flippedCards (projr (run lastSecondApp
         [CardClick 0, CardClick 1, Tick, ResetGame, StartGame, CardClick 5, CardClick 6, TimeoutFires, CardClick 7])) = [7]"
    by code_simp
  with lastSecondApp_reached show ?thesis
    by (simp only: simp_thms)
qed

section \<open>Starting and resetting\<close>

lemma pairCheckEffect_frame:
  "pairCheckEffect r s = Inr s' \<Longrightarrow>
     highScores s' = highScores s \<and> localStorage s' = localStorage s
     \<and> shuffledCards_memo s' = shuffledCards_memo s"
  by (auto simp: pairCheckEffect_def Let_def split: if_splits)

lemma settle_frame:
  "settle r d = Inr s \<Longrightarrow>
     highScores s = highScores r \<and> localStorage s = localStorage r
     \<and> shuffledCards_memo s = shuffledCards_memo r"
  by (auto simp: settle_eq runEffects_def Let_def split: if_splits sum.splits
      dest: pairCheckEffect_frame)

lemma step_memo:
  assumes "step s ev = Inr s'"
  shows "shuffledCards_memo s' = shuffledCards_memo s"
proof (cases ev)
  case (CardClick index)
  with assms show ?thesis
    by (auto simp: handleCardClick_def Let_def split: if_splits sum.splits dest!: settle_frame)
next
  case TimeoutFires
  with assms show ?thesis
    by (auto simp: timeoutCallback_def Let_def split: list.splits dest!: settle_frame)
qed (use assms in \<open>auto simp: handleStartGame_def handleResetGame_def handleNameSubmit_def
       tick_def Let_def split: if_splits sum.splits scores.splits dest!: settle_frame\<close>)

lemma step_ledger:
  assumes "step s ev = Inr s'" "\<forall>b. ev \<noteq> NameSubmit b"
  shows "highScores s' = highScores s \<and> localStorage s' = localStorage s"
proof (cases ev)
  case (CardClick index)
  with assms show ?thesis
    by (auto simp: handleCardClick_def Let_def split: if_splits sum.splits dest!: settle_frame)
next
  case TimeoutFires
  with assms show ?thesis
    by (auto simp: timeoutCallback_def Let_def split: list.splits dest!: settle_frame)
qed (use assms in \<open>auto simp: handleStartGame_def handleResetGame_def
       tick_def Let_def split: if_splits dest!: settle_frame\<close>)

lemma run_memo: "run s evs = Inr s' \<Longrightarrow> shuffledCards_memo s' = shuffledCards_memo s"
  by (induction evs arbitrary: s) (auto split: sum.splits dest: step_memo)

lemma memo_mount [simp]: "shuffledCards_memo (mount p st t) = shuffledCards p"
  by (simp add: mount_def loadHighScores_def initialApp_def split: stored.splits)

lemma step_ResetGame: "step s ResetGame = Inr (handleResetGame s)"
  by (simp add: settle_eq runEffects_def changes_def effectsPending_def handleResetGame_def
      timerEffect_def pairCheckEffect_def winEffect_def pairMatches_def Let_def)

lemma step_StartGame:
  assumes "\<forall>c \<in> set (shuffledCards_memo s). \<not> isMatched c"
  shows "step s StartGame = Inr (handleStartGame s)"
proof -
  have "shuffledCards_memo s = [] \<or> \<not> list_all isMatched (shuffledCards_memo s)"
    using assms by (cases "shuffledCards_memo s") (auto simp: list_all_iff)
  then show ?thesis
    by (auto simp: settle_eq runEffects_def changes_def effectsPending_def handleStartGame_def
      timerEffect_def pairCheckEffect_def winEffect_def pairMatches_def Let_def
      GAME_DURATION_def)
qed

lemma shuffledCards_face_down:
  assumes "mset p = mset [0..<GRID_ROWS * GRID_COLS]" and "c \<in> set (shuffledCards p)"
  shows "\<not> isFlipped c \<and> \<not> isMatched c"
proof -
  have "min (length IMAGE_PATHS) ((GRID_ROWS * GRID_COLS) div 2) = 10"
    by (simp add: IMAGE_PATHS_def GRID_ROWS_def GRID_COLS_def)
  then have "mset p = mset [0..<2 * min (length IMAGE_PATHS) ((GRID_ROWS * GRID_COLS) div 2)]"
    using assms(1) by (simp add: GRID_ROWS_def GRID_COLS_def)
  then show ?thesis
    using assms(2) unfolding shuffledCards_def by (rule shuffledCards_of_face_down)
qed

text \<open>
  C7, amended. The deck generator runs once, when the component is mounted; \<open>p\<close> is the
  order its random sort produced. Whatever events follow, the memoised deck stays that
  one deck, and each \<open>StartGame\<close> installs it as the cards of the new session: every
  session of the same mounted component gets the same card arrangement.
\<close>

theorem start_reuses_deck:
  assumes "mset p = mset [0..<GRID_ROWS * GRID_COLS]"
    and "run (mount p st getItemThrows) evs = Inr s"
  shows "shuffledCards_memo s = shuffledCards p
       \<and> step s StartGame = Inr (handleStartGame s)
       \<and> cards (handleStartGame s) = shuffledCards p"
proof -
  have m: "shuffledCards_memo s = shuffledCards p"
    using run_memo [OF assms(2)] by simp
  have "\<forall>c \<in> set (shuffledCards p). \<not> isMatched c"
    using shuffledCards_face_down [OF assms(1)] by blast
  then have "step s StartGame = Inr (handleStartGame s)"
    using m by (intro step_StartGame) simp
  then show ?thesis
    using m by (simp add: handleStartGame_def)
qed

theorem start_reuses_deck_witness:
  "mset [0..<20] = mset [0..<GRID_ROWS * GRID_COLS]
   \<and> run (mount [0..<20] NoItem False) (StartGame # replicate 179 Tick @ [Tick]) = Inr lostApp
   \<and> step lostApp StartGame = Inr (handleStartGame lostApp)
   \<and> cards (handleStartGame lostApp) = shuffledCards [0..<20]"
proof -
  have p: "mset [0..<20] = mset [0..<GRID_ROWS * GRID_COLS]"
    by (simp add: GRID_ROWS_def GRID_COLS_def)
  have r: "run (mount [0..<20] NoItem False) (StartGame # replicate 179 Tick @ [Tick]) = Inr lostApp"
    using lostApp_reached by (simp only: demoApp_def)
  from start_reuses_deck [OF p r] p r show ?thesis
    by blast
qed

text \<open>
  C7, as stated, fails: a first game is started and lost on time, the player resets and
  starts a second game, and the second session holds the very cards of the first one, in
  the same arrangement. No event carries a new random order: the only one is that of
  the mount.
\<close>

theorem second_session_same_deck:
  "\<not> isl (run demoApp [StartGame])
   \<and> run demoApp (StartGame # replicate 179 Tick @ [Tick]) = Inr lostApp
   \<and> \<not> isl (run lostApp [ResetGame, StartGame])
   \<and> cards (projr (run lostApp [ResetGame, StartGame])) = cards (projr (run demoApp [StartGame]))"
proof -
  have "\<not> isl (run demoApp [StartGame])
   \<and> \<not> isl (run lostApp [ResetGame, StartGame])
   \<and> cards (projr (run lostApp [ResetGame, StartGame])) = cards (projr (run demoApp [StartGame]))"
    by code_simp
  with lostApp_reached show ?thesis
    by (simp only: simp_thms)
qed

text \<open>
  C10. \<open>ResetGame\<close> sets phase, cards, \<open>flippedCards\<close>, moves and time left and leaves the
  ledger and the stored copy as they are. So does \<open>StartGame\<close>, for a memoised deck with no
  matched card (every generated deck is one). And every event other than a name
  submission leaves the ledger and the stored copy unchanged.
\<close>

theorem start_reset_keep_ledger:
  "(\<exists>s'. step s ResetGame = Inr s'
        \<and> gameState s' = Start \<and> cards s' = [] \<and> flippedCards s' = [] \<and> moves s' = 0
        \<and> timeLeft s' = GAME_DURATION
        \<and> highScores s' = highScores s \<and> localStorage s' = localStorage s)
   \<and> ((\<forall>c \<in> set (shuffledCards_memo s). \<not> isMatched c) \<longrightarrow>
       (\<exists>s'. step s StartGame = Inr s'
          \<and> gameState s' = Playing \<and> cards s' = shuffledCards_memo s \<and> flippedCards s' = []
          \<and> moves s' = 0 \<and> timeLeft s' = GAME_DURATION
          \<and> highScores s' = highScores s \<and> localStorage s' = localStorage s))
   \<and> (\<forall>ev s'. (\<forall>b. ev \<noteq> NameSubmit b) \<longrightarrow> step s ev = Inr s' \<longrightarrow>
         highScores s' = highScores s \<and> localStorage s' = localStorage s)"
proof (intro conjI impI allI)
  show "\<exists>s'. step s ResetGame = Inr s'
        \<and> gameState s' = Start \<and> cards s' = [] \<and> flippedCards s' = [] \<and> moves s' = 0
        \<and> timeLeft s' = GAME_DURATION
        \<and> highScores s' = highScores s \<and> localStorage s' = localStorage s"
    by (rule exI [of _ "handleResetGame s"])
       (simp only: step_ResetGame, simp add: handleResetGame_def)
next
  assume "\<forall>c \<in> set (shuffledCards_memo s). \<not> isMatched c"
  then have "step s StartGame = Inr (handleStartGame s)"
    by (rule step_StartGame)
  then show "\<exists>s'. step s StartGame = Inr s'
          \<and> gameState s' = Playing \<and> cards s' = shuffledCards_memo s \<and> flippedCards s' = []
          \<and> moves s' = 0 \<and> timeLeft s' = GAME_DURATION
          \<and> highScores s' = highScores s \<and> localStorage s' = localStorage s"
    by (intro exI [of _ "handleStartGame s"]) (simp add: handleStartGame_def)
next
  fix ev s'
  assume "\<forall>b. ev \<noteq> NameSubmit b" and "step s ev = Inr s'"
  then show "highScores s' = highScores s" and "localStorage s' = localStorage s"
    using step_ledger [of s ev s'] by simp_all
qed

theorem start_reset_keep_ledger_witness:
  "list_all (\<lambda>c. \<not> isMatched c) (shuffledCards_memo lostApp)
   \<and> (\<exists>s'. step lostApp StartGame = Inr s' \<and> gameState s' = Playing
          \<and> cards s' = shuffledCards_memo lostApp
          \<and> highScores s' = highScores lostApp \<and> localStorage s' = localStorage lostApp)
   \<and> step lostApp (CardClick 0) = Inr (projr (step lostApp (CardClick 0)))
   \<and> highScores (projr (step lostApp (CardClick 0))) = highScores lostApp"
proof -
  have l: "list_all (\<lambda>c. \<not> isMatched c) (shuffledCards_memo lostApp)"
    by code_simp
  then have h: "\<forall>c \<in> set (shuffledCards_memo lostApp). \<not> isMatched c"
    by (simp add: list_all_iff)
  have c: "step lostApp (CardClick 0) = Inr (projr (step lostApp (CardClick 0)))"
    by code_simp
  have n: "\<forall>b. CardClick 0 \<noteq> NameSubmit b"
    by simp
  from start_reset_keep_ledger [of lostApp] h
  have 1: "\<exists>s'. step lostApp StartGame = Inr s' \<and> gameState s' = Playing
          \<and> cards s' = shuffledCards_memo lostApp
          \<and> highScores s' = highScores lostApp \<and> localStorage s' = localStorage lostApp"
    by blast
  from start_reset_keep_ledger [of lostApp] n c
  have 2: "highScores (projr (step lostApp (CardClick 0))) = highScores lostApp"
    by blast
  from l 1 c 2 show ?thesis
    by blast
qed

section \<open>A pool with too few images\<close>

text \<open>
  C8, amended. With an image pool smaller than the number of pairs the grid needs, deck
  construction does not fail. It builds a deck of twice as many cards as the pool has
  images: ids \<open>0, 1, ...\<close> in deck order, each pool image on exactly two cards, all face
  down and unmatched; and a component holding that deck starts a session with it.
\<close>

theorem small_pool_deck:
  assumes "length pool < (rows * cols) div 2" and "mset p = mset [0..<2 * length pool]"
  shows "length (shuffledCards_of pool rows cols p) = 2 * length pool
       \<and> map id_card (shuffledCards_of pool rows cols p) = [0..<2 * length pool]
       \<and> set (map imageId (shuffledCards_of pool rows cols p)) = {0..<length pool}
       \<and> (\<forall>k<length pool.
             length (filter (\<lambda>c. imageId c = k) (shuffledCards_of pool rows cols p)) = 2)
       \<and> (\<forall>c \<in> set (shuffledCards_of pool rows cols p). \<not> isFlipped c \<and> \<not> isMatched c)
       \<and> (\<forall>s. shuffledCards_memo s = shuffledCards_of pool rows cols p \<longrightarrow>
              step s StartGame = Inr (handleStartGame s)
              \<and> gameState (handleStartGame s) = Playing
              \<and> cards (handleStartGame s) = shuffledCards_of pool rows cols p)"
proof -
  let ?deck = "shuffledCards_of pool rows cols p"
  have m: "min (length pool) ((rows * cols) div 2) = length pool"
    using assms(1) by simp
  have p: "mset p = mset [0..<2 * min (length pool) ((rows * cols) div 2)]"
    using assms(2) by (simp only: m)
  have lp: "length p = 2 * length pool"
    using arg_cong [OF assms(2), of size] by simp
  have ids: "map id_card ?deck = [0..<2 * length pool]"
    by (simp only: map_id_card_shuffledCards_of lp)
  have len: "length ?deck = 2 * length pool"
    using arg_cong [OF ids, of length] by simp
  have ms: "mset (map imageId ?deck) = mset [0..<length pool] + mset [0..<length pool]"
    using mset_imageId_shuffledCards_of [OF p] by (simp only: m)
  have "set_mset (mset (map imageId ?deck)) = {0..<length pool}"
    by (simp only: ms) auto
  then have st: "set (map imageId ?deck) = {0..<length pool}"
    by (simp only: set_mset_mset)
  have cnt: "length (filter (\<lambda>c. imageId c = k) ?deck) = 2" if "k < length pool" for k
  proof -
    have "length (filter (\<lambda>c. imageId c = k) ?deck) = count (mset (map imageId ?deck)) k"
      by (rule count_mset_map [symmetric])
    also have "\<dots> = 2"
      using that by (simp only: ms) simp
    finally show ?thesis .
  qed
  have fd: "\<forall>c \<in> set ?deck. \<not> isFlipped c \<and> \<not> isMatched c"
    using shuffledCards_of_face_down [OF p] by blast
  have start: "step s StartGame = Inr (handleStartGame s)
              \<and> gameState (handleStartGame s) = Playing \<and> cards (handleStartGame s) = ?deck"
    if "shuffledCards_memo s = ?deck" for s
  proof -
    have "step s StartGame = Inr (handleStartGame s)"
      using fd that by (intro step_StartGame) simp
    then show ?thesis
      using that by (simp add: handleStartGame_def)
  qed
  show ?thesis
    using len ids st cnt fd start by blast
qed

theorem small_pool_deck_witness:
  "length (take 3 IMAGE_PATHS) < (GRID_ROWS * GRID_COLS) div 2
   \<and> mset [5, 4, 3, 2, 1, 0] = mset [0..<2 * length (take 3 IMAGE_PATHS)]
   \<and> length (take 3 IMAGE_PATHS) = 3
   \<and> length (shuffledCards_of (take 3 IMAGE_PATHS) GRID_ROWS GRID_COLS [5, 4, 3, 2, 1, 0])
       = 2 * length (take 3 IMAGE_PATHS)
   \<and> set (map imageId (shuffledCards_of (take 3 IMAGE_PATHS) GRID_ROWS GRID_COLS [5, 4, 3, 2, 1, 0]))
       = {0..<length (take 3 IMAGE_PATHS)}"
proof -
  have a: "length (take 3 IMAGE_PATHS) < (GRID_ROWS * GRID_COLS) div 2"
    by (simp add: IMAGE_PATHS_def GRID_ROWS_def GRID_COLS_def)
  have l: "length (take 3 IMAGE_PATHS) = 3"
    by (simp add: IMAGE_PATHS_def)
  have b: "mset [5, 4, 3, 2, 1, 0] = mset [0..<2 * length (take 3 IMAGE_PATHS)]"
    by (simp only: l) code_simp
  from small_pool_deck [OF a b] a b l show ?thesis
    by blast
qed

text \<open>
  C8, as stated, fails: with a pool of three images and the 5 by 4 grid, which needs ten,
  the generator returns a deck of six cards, and \<open>StartGame\<close> on a component holding that
  deck begins a session (phase \<open>Playing\<close>) with those six cards.
\<close>

theorem small_pool_counterexample:
  "length (take 3 IMAGE_PATHS) < (GRID_ROWS * GRID_COLS) div 2
   \<and> length (shuffledCards_of (take 3 IMAGE_PATHS) GRID_ROWS GRID_COLS [0..<6]) = 6
   \<and> \<not> isl (step (initialApp [0..<20] NoItem
                  \<lparr>shuffledCards_memo := shuffledCards_of (take 3 IMAGE_PATHS) GRID_ROWS GRID_COLS [0..<6]\<rparr>)
             StartGame)
   \<and> gameState (projr (step (initialApp [0..<20] NoItem
                  \<lparr>shuffledCards_memo := shuffledCards_of (take 3 IMAGE_PATHS) GRID_ROWS GRID_COLS [0..<6]\<rparr>)
             StartGame)) = Playing
   \<and> map imageId (cards (projr (step (initialApp [0..<20] NoItem
                  \<lparr>shuffledCards_memo := shuffledCards_of (take 3 IMAGE_PATHS) GRID_ROWS GRID_COLS [0..<6]\<rparr>)
             StartGame))) = [0, 1, 2, 0, 1, 2]"
  by code_simp

section \<open>Loading and saving the ledger\<close>

lemma awaitingApp_reached:
  "run demoApp (StartGame # replicate 42 Tick @ allPairs @ [NameChange ''Ana'']) = Inr awaitingApp"
  by code_simp

lemma step_NameSubmit: "step s (NameSubmit b) = handleNameSubmit b s"
proof (cases "handleNameSubmit b s")
  case (Inl e)
  then show ?thesis by simp
next
  case (Inr s')
  then have "gameState s' \<noteq> Playing \<or> s' = s"
    by (auto simp: handleNameSubmit_def Let_def split: if_splits scores.splits)
  moreover have "timeLeft s' = timeLeft s"
    using Inr by (auto simp: handleNameSubmit_def Let_def split: if_splits scores.splits)
  ultimately have "settle s' (changes s s' False False) = Inr s'"
    by (auto simp: settle_timer changes_def timerEffect_idle)
  then show ?thesis
    using Inr by simp
qed

text \<open>
  C9, as stated, fails in both halves. At load time: when the stored text is \<open>null\<close>
  (valid JSON, not a ledger) the ledger in memory is \<open>null\<close>, not empty, and rendering the
  table throws, which takes the component down; when the stored text is \<open>5\<close> the ledger in
  memory is that number. At save time: Ana finds all ten pairs in ten moves after 42
  seconds and submits her name. When the store accepts the write, her entry is in the
  ledger and in the store. When \<open>setItem\<close> throws, the failure is logged, the phase becomes
  \<open>Won\<close>, and the ledger in memory is still empty.
\<close>

theorem persistence_counterexample:
  "mounted [0..<20] (JsonItem JsonNull) False = Inl TypeError
   \<and> highScores (mount [0..<20] (JsonItem JsonNull) False) = JsonNull
   \<and> mounted [0..<20] (JsonItem (JsonNumber 5)) False
       = Inr (mount [0..<20] (JsonItem (JsonNumber 5)) False)
   \<and> highScores (mount [0..<20] (JsonItem (JsonNumber 5)) False) = JsonNumber 5
   \<and> run demoApp (StartGame # replicate 42 Tick @ allPairs @ [NameChange ''Ana'']) = Inr awaitingApp
   \<and> gameState awaitingApp = AwaitingName
   \<and> playerName awaitingApp = ''Ana'' \<and> timeLeft awaitingApp = 138 \<and> moves awaitingApp = 10
   \<and> highScores awaitingApp = Ledger []
   \<and> step awaitingApp (NameSubmit False)
       = Inr (awaitingApp
               \<lparr>localStorage := JsonItem (Ledger [\<lparr>name = ''Ana'', time = 42, moves_hs = 10\<rparr>]),
                highScores := Ledger [\<lparr>name = ''Ana'', time = 42, moves_hs = 10\<rparr>],
                gameState := Won\<rparr>)
   \<and> step awaitingApp (NameSubmit True)
       = Inr (awaitingApp\<lparr>console := [''Failed to save high scores:''], gameState := Won\<rparr>)
   \<and> highScores (awaitingApp\<lparr>console := [''Failed to save high scores:''], gameState := Won\<rparr>)
       = Ledger []"
proof -
  have l: "mounted [0..<20] (JsonItem JsonNull) False = Inl TypeError"
    "highScores (mount [0..<20] (JsonItem JsonNull) False) = JsonNull"
    "mounted [0..<20] (JsonItem (JsonNumber 5)) False
       = Inr (mount [0..<20] (JsonItem (JsonNumber 5)) False)"
    "highScores (mount [0..<20] (JsonItem (JsonNumber 5)) False) = JsonNumber 5"
    by (simp_all add: mounted_def mount_def loadHighScores_def initialApp_def
        renderHighScoresTable_def)
  have f: "gameState awaitingApp = AwaitingName" "playerName awaitingApp = ''Ana''"
    "timeLeft awaitingApp = 138" "moves awaitingApp = 10"
    by (simp_all add: awaitingApp_def)
  have g: "highScores awaitingApp = Ledger []" "console awaitingApp = []"
    by code_simp+
  have t: "trim ''Ana'' = ''Ana''"
    by code_simp
  have u: "updatedScores [] \<lparr>name = ''Ana'', time = 42, moves_hs = 10\<rparr>
             = [\<lparr>name = ''Ana'', time = 42, moves_hs = 10\<rparr>]"
    by (simp add: updatedScores_def sort_by_def)
  have 1: "step awaitingApp (NameSubmit False)
       = Inr (awaitingApp
               \<lparr>localStorage := JsonItem (Ledger [\<lparr>name = ''Ana'', time = 42, moves_hs = 10\<rparr>]),
                highScores := Ledger [\<lparr>name = ''Ana'', time = 42, moves_hs = 10\<rparr>],
                gameState := Won\<rparr>)"
    by (simp add: step_NameSubmit handleNameSubmit_def f g t u GAME_DURATION_def Let_def
        del: step.simps)
  have 2: "step awaitingApp (NameSubmit True)
       = Inr (awaitingApp\<lparr>console := [''Failed to save high scores:''], gameState := Won\<rparr>)"
    by (simp add: step_NameSubmit handleNameSubmit_def f g t Let_def del: step.simps)
  have 3: "highScores (awaitingApp\<lparr>console := [''Failed to save high scores:''], gameState := Won\<rparr>)
       = Ledger []"
    using g by simp
  show ?thesis
    by (intro conjI; fact l f g awaitingApp_reached 1 2 3)
qed

text \<open>
  C9, amended. With no entry in the store, an empty entry, text that does not parse, or a
  store that cannot be read, mounting succeeds and the ledger in memory starts empty (the
  last two are logged); text that parses to a ledger becomes the ledger. When a name is
  submitted to a ledger and the write to the store throws, the failure is logged and the
  phase becomes \<open>Won\<close>, with nothing else changed: the ledger in memory stays as it was
  before the submission. When the write succeeds, the ledger in memory is the updated one
  and the store holds it. (Nothing is said here of stored text that parses to something
  other than a ledger.)
\<close>

theorem persistence_failures:
  "mounted p NoItem False = Inr (mount p NoItem False)
   \<and> highScores (mount p NoItem False) = Ledger []
   \<and> mounted p EmptyItem False = Inr (mount p EmptyItem False)
   \<and> highScores (mount p EmptyItem False) = Ledger []
   \<and> mounted p MalformedItem False = Inr (mount p MalformedItem False)
   \<and> highScores (mount p MalformedItem False) = Ledger []
   \<and> console (mount p MalformedItem False) = [''Failed to load high scores:'']
   \<and> mounted p st True = Inr (mount p st True)
   \<and> highScores (mount p st True) = Ledger []
   \<and> console (mount p st True) = [''Failed to load high scores:'']
   \<and> mounted p (JsonItem (Ledger l)) False = Inr (mount p (JsonItem (Ledger l)) False)
   \<and> highScores (mount p (JsonItem (Ledger l)) False) = Ledger l
   \<and> (trim (playerName s) \<noteq> [] \<and> highScores s = Ledger hs \<longrightarrow>
        step s (NameSubmit True)
          = Inr (s\<lparr>console := console s @ [''Failed to save high scores:''], gameState := Won\<rparr>))
   \<and> (trim (playerName s) \<noteq> [] \<and> highScores s = Ledger hs \<longrightarrow>
        (\<exists>s'. step s (NameSubmit False) = Inr s'
           \<and> highScores s' = Ledger (updatedScores hs
                 \<lparr>name = trim (playerName s), time = GAME_DURATION - timeLeft s, moves_hs = moves s\<rparr>)
           \<and> localStorage s' = JsonItem (highScores s')
           \<and> console s' = console s \<and> gameState s' = Won))"
  by (simp add: step_NameSubmit handleNameSubmit_def mounted_def mount_def loadHighScores_def
      initialApp_def renderHighScoresTable_def Let_def del: step.simps)

theorem persistence_failures_witness:
  "trim (playerName awaitingApp) \<noteq> []
   \<and> highScores awaitingApp = Ledger []
   \<and> step awaitingApp (NameSubmit True)
       = Inr (awaitingApp\<lparr>console := console awaitingApp @ [''Failed to save high scores:''],
                         gameState := Won\<rparr>)
   \<and> mounted [0..<20] MalformedItem False = Inr (mount [0..<20] MalformedItem False)
   \<and> highScores (mount [0..<20] MalformedItem False) = Ledger []"
proof -
  have h: "trim (playerName awaitingApp) \<noteq> []" "highScores awaitingApp = Ledger []"
    by code_simp+
  from persistence_failures [of "[0..<20]" _ _ awaitingApp "[]"] h show ?thesis
    by blast
qed

end
